theory Spec2Isabelle
  imports
    Main
    "HOL-Library.AList"
    "HOL-Library.Sublist"
    "HOL-Library.Char_ord"
    "HOL-Library.List_Lexorder"
    "HOL-Library.Multiset"
begin

section \<open>Data: items, the Games table, exceptions\<close>

text \<open>
  Every attribute of a game item is a string (models/game.py: "Each of the fields in the
  table is of a String type"). An item is the dictionary of its attributes, kept as an
  association list with one entry per attribute; the Games table is keyed by GameId. The
  connection is \<open>None\<close> while the Games table does not exist.
\<close>

type_synonym item = "(string \<times> string) list"
type_synonym table = "(string \<times> item) list"
type_synonym db = "table option"

text \<open>
  The exceptions the sources catch or let through. \<open>JSONResponseError\<close> carries the
  \<open>__type\<close> of its body; \<open>StopIteration\<close> is the end of an iterator and is
  modelled by the end of the list of its results.
\<close>

datatype exn =
    ConditionalCheckFailedException
  | ValidationException
  | JSONResponseError string
  | TypeError
  | IndexError
  | BadRequestKeyError

definition ResourceNotFound :: string where
  "ResourceNotFound = ''com.amazonaws.dynamodb.v20120810#ResourceNotFoundException''"

text \<open>
  \<open>item[key]\<close> on a boto Item is \<open>_data.get(key, None)\<close>: a missing attribute reads as
  \<open>None\<close>. \<open>item[key] = value\<close> stores the value; a \<open>None\<close> value is never written to
  the table and reads back as \<open>None\<close>, so it is modelled by removing the attribute.
\<close>

definition getitem :: "item \<Rightarrow> string \<Rightarrow> string option" where
  "getitem i k = map_of i k"

definition setitem :: "item \<Rightarrow> string \<Rightarrow> string option \<Rightarrow> item" where
  "setitem i k v = (case v of None \<Rightarrow> AList.delete k i | Some s \<Rightarrow> AList.update k s i)"

text \<open>
  A Python dictionary display \<open>{k1: v1, k2: v2, ...}\<close>: a key that occurs twice keeps its
  first position and its last value. The keys of the displays in gameController.py are
  not all literals (\<open>position\<close> comes from the request), so two of them can coincide.
\<close>

definition dict :: "('k \<times> 'v) list \<Rightarrow> ('k \<times> 'v) list" where
  "dict kvs = foldl (\<lambda>d (k, v). AList.update k v d) [] kvs"

section \<open>The store adapter\<close>

text \<open>
  Modelled from the spec: the store adapter. dynamodb/connectionManager.py and the boto
  client it wraps (\<open>cm.db\<close>, \<open>cm.getGamesTable()\<close>) are not among the source files;
  section 6 of the specification lists the primitives: GetItem, PutItem,
  ConditionalUpdate, ConditionalDelete, Query. A conditional write "commits only if
  stated preconditions on the current record hold; otherwise rejected atomically with no
  partial effect" (glossary). The three kinds of precondition the sources write are
  \<open>{"ComparisonOperator": "BEGINS_WITH", "AttributeValueList": [{"S": p}]}\<close>,
  \<open>{"Value": {"S": v}}\<close> and \<open>{"Exists": False}\<close>; they are evaluated on the record
  stored under the key, an absent record having no attribute.
  Request validation by the service is modelled only where the sources meet it: a
  \<open>None\<close> where a string is required, and an empty key value in a query
  (\<open>ValidationException\<close>, which getGameInvites catches).
\<close>

datatype expectation = BEGINS_WITH string | Value string | Exists_False

fun expectation_holds :: "item \<Rightarrow> string \<times> expectation \<Rightarrow> bool" where
  "expectation_holds cur (a, BEGINS_WITH p) =
     (case map_of cur a of None \<Rightarrow> False | Some s \<Rightarrow> prefix p s)"
| "expectation_holds cur (a, Value v) = (map_of cur a = Some v)"
| "expectation_holds cur (a, Exists_False) = (map_of cur a = None)"

definition stored :: "table \<Rightarrow> string \<Rightarrow> item" where
  "stored t k = (case map_of t k of None \<Rightarrow> [] | Some r \<Rightarrow> r)"

definition put_all :: "item \<Rightarrow> (string \<times> string option) list \<Rightarrow> item" where
  "put_all r ups =
     foldl (\<lambda>r (a, v). case v of None \<Rightarrow> r | Some s \<Rightarrow> AList.update a s r) r ups"

text \<open>
  Modelled from the spec: ConditionalUpdate (\<open>cm.db.update_item\<close> with PUT actions). On
  success the listed attributes are written into the record under the key (created with
  its key attribute when absent); every other attribute is kept.
\<close>

definition update_item ::
  "db \<Rightarrow> string option \<Rightarrow> (string \<times> string option) list \<Rightarrow> (string \<times> expectation) list
     \<Rightarrow> exn + db" where
  "update_item db key attribute_updates expected =
     (case db of
        None \<Rightarrow> Inl (JSONResponseError ResourceNotFound)
      | Some t \<Rightarrow>
          (case key of
             None \<Rightarrow> Inl ValidationException
           | Some k \<Rightarrow>
               if list_ex (\<lambda>(a, v). v = None) attribute_updates then Inl ValidationException
               else if list_all (expectation_holds (stored t k)) expected
               then Inr (Some (AList.update k
                      (put_all (case map_of t k of None \<Rightarrow> [(''GameId'', k)] | Some r \<Rightarrow> r)
                         attribute_updates) t))
               else Inl ConditionalCheckFailedException))"

text \<open>Modelled from the spec: ConditionalDelete (\<open>cm.db.delete_item\<close>).\<close>

definition delete_item :: "db \<Rightarrow> string option \<Rightarrow> (string \<times> expectation) list \<Rightarrow> exn + db" where
  "delete_item db key expected =
     (case db of
        None \<Rightarrow> Inl (JSONResponseError ResourceNotFound)
      | Some t \<Rightarrow>
          (case key of
             None \<Rightarrow> Inl ValidationException
           | Some k \<Rightarrow>
               if list_all (expectation_holds (stored t k)) expected
               then Inr (Some (AList.delete k t))
               else Inl ConditionalCheckFailedException))"

text \<open>
  Modelled from the spec: PutItem. The sources reach it through \<open>Item.save()\<close> of boto,
  called without \<open>overwrite\<close>, so the put carries one expectation per attribute of the
  item: an attribute the item was loaded with must still hold the loaded value, an
  attribute added since must be absent. Nothing is sent when the item has no alteration
  (\<open>save\<close> then returns \<open>False\<close>); attributes whose value is empty are not stored. The
  record written replaces the one under the item's GameId. Section 6 calls PutItem
  unconditional: for a new key and for an item saved as it was just loaded the put goes
  through either way; what the expectations add is that a record already stored under
  the key of a new item, or changed since the item was loaded, is not overwritten.
\<close>

definition build_expects :: "item \<Rightarrow> item \<Rightarrow> (string \<times> expectation) list" where
  "build_expects orig_data data =
     map (\<lambda>k. (k, (case map_of orig_data k of None \<Rightarrow> Exists_False | Some v \<Rightarrow> Value v)))
       (remdups (map fst data @ map fst orig_data))"

definition prepare_full :: "item \<Rightarrow> item" where
  "prepare_full data = filter (\<lambda>(k, v). v \<noteq> []) data"

definition needs_save :: "item \<Rightarrow> item \<Rightarrow> bool" where
  "needs_save orig_data data =
     (list_ex (\<lambda>(k, v). case map_of orig_data k of None \<Rightarrow> v \<noteq> [] | Some v' \<Rightarrow> v \<noteq> v') data
      \<or> list_ex (\<lambda>(k, v'). map_of data k = None) orig_data)"

definition put_item :: "db \<Rightarrow> item \<Rightarrow> (string \<times> expectation) list \<Rightarrow> exn + db" where
  "put_item db final_data expected =
     (case db of
        None \<Rightarrow> Inl (JSONResponseError ResourceNotFound)
      | Some t \<Rightarrow>
          (case map_of final_data ''GameId'' of
             None \<Rightarrow> Inl ValidationException
           | Some k \<Rightarrow>
               if list_all (expectation_holds (stored t k)) expected
               then Inr (Some (AList.update k final_data t))
               else Inl ConditionalCheckFailedException))"

definition save :: "db \<Rightarrow> item \<Rightarrow> item \<Rightarrow> exn + (bool \<times> db)" where
  "save db orig_data data =
     (if \<not> needs_save orig_data data then Inr (False, db)
      else case put_item db (prepare_full data) (build_expects orig_data data) of
             Inl e \<Rightarrow> Inl e
           | Inr db' \<Rightarrow> Inr (True, db'))"

text \<open>
  Modelled from the spec: Query on a secondary index (partition key equal to a value,
  StatusDate beginning with a prefix, a limit), "ordered sequence of Record". The
  iterator that \<open>Table.query\<close> returns is the list of what each \<open>next\<close> gives: a record,
  or the exception raised by the request. Records come by StatusDate, the latest first
  ("most recent first" in section 4.2); records with equal StatusDate come in no
  particular order.
\<close>

definition statusDate_key :: "item \<Rightarrow> string" where
  "statusDate_key r = (case getitem r ''StatusDate'' of None \<Rightarrow> [] | Some s \<Rightarrow> s)"

definition matches :: "string \<Rightarrow> string \<Rightarrow> string \<Rightarrow> item \<Rightarrow> bool" where
  "matches hash_attr hash_value range_prefix r =
     (getitem r hash_attr = Some hash_value
      \<and> expectation_holds r (''StatusDate'', BEGINS_WITH range_prefix))"

definition query :: "db \<Rightarrow> string \<Rightarrow> string \<Rightarrow> string \<Rightarrow> nat \<Rightarrow> (exn + item) list" where
  "query db hash_attr hash_value range_prefix limit =
     (if hash_value = [] then [Inl ValidationException]
      else case db of
        None \<Rightarrow> [Inl (JSONResponseError ResourceNotFound)]
      | Some t \<Rightarrow>
          map Inr (take limit (rev (sort_key statusDate_key
            (filter (matches hash_attr hash_value range_prefix) (map snd t))))))"

text \<open>\<open>list(iterator)\<close>: all the records, or the first exception.\<close>

fun list_of_iterator :: "(exn + item) list \<Rightarrow> exn + item list" where
  "list_of_iterator [] = Inr []"
| "list_of_iterator (Inl e # it) = Inl e"
| "list_of_iterator (Inr x # it) =
     (case list_of_iterator it of Inl e \<Rightarrow> Inl e | Inr xs \<Rightarrow> Inr (x # xs))"

section \<open>dynamodb/gameController.py\<close>

definition createNewGame :: "db \<Rightarrow> string \<Rightarrow> string \<Rightarrow> string \<Rightarrow> string \<Rightarrow> exn + (bool \<times> db)" where
  "createNewGame db gameId creator invitee now =
     (let statusDate = ''PENDING_'' @ now;
          item = dict [(''GameId'', gameId),
                       (''HostId'', creator),
                       (''StatusDate'', statusDate),
                       (''OUser'', creator),
                       (''Turn'', invitee),
                       (''OpponentId'', invitee)]
      in save db [] item)"

text \<open>\<open>get_item\<close> raises ItemNotFound or JSONResponseError; getGame turns both into \<open>None\<close>.\<close>

definition getGame :: "db \<Rightarrow> string \<Rightarrow> item option" where
  "getGame db gameId = (case db of None \<Rightarrow> None | Some t \<Rightarrow> map_of t gameId)"

definition acceptGameInvite :: "db \<Rightarrow> item \<Rightarrow> string \<Rightarrow> exn + (bool \<times> db)" where
  "acceptGameInvite db game date =
     (let statusDate = ''IN_PROGRESS_'' @ date;
          key = getitem game ''GameId'';
          attributeUpdates = dict [(''StatusDate'', Some statusDate)];
          expectations = dict [(''StatusDate'', BEGINS_WITH ''PENDING_'')]
      in case update_item db key attributeUpdates expectations of
           Inl ConditionalCheckFailedException \<Rightarrow> Inr (False, db)
         | Inl e \<Rightarrow> Inl e
         | Inr db' \<Rightarrow> Inr (True, db'))"

definition rejectGameInvite :: "db \<Rightarrow> item \<Rightarrow> bool \<times> db" where
  "rejectGameInvite db game =
     (let key = getitem game ''GameId'';
          expectation = dict [(''StatusDate'', BEGINS_WITH ''PENDING_'')]
      in case delete_item db key expectation of
           Inl e \<Rightarrow> (False, db)
         | Inr db' \<Rightarrow> (True, db'))"

text \<open>
  The loop of getGameInvites: at most ten \<open>next(index)\<close>. The result is \<open>Inr (Some invites)\<close>
  for a returned list, \<open>Inr None\<close> for the returned \<open>None\<close>, \<open>Inl e\<close> for a re-raised
  exception.
\<close>

fun invites_loop :: "nat \<Rightarrow> (exn + item) list \<Rightarrow> item list \<Rightarrow> exn + item list option" where
  "invites_loop 0 index invites = Inr (Some invites)"
| "invites_loop (Suc n) [] invites = Inr (Some invites)"
| "invites_loop (Suc n) (Inr x # index) invites = invites_loop n index (invites @ [x])"
| "invites_loop (Suc n) (Inl e # index) invites =
     (case e of
        ValidationException \<Rightarrow> Inr (Some invites)
      | JSONResponseError ty \<Rightarrow> if ty = ResourceNotFound then Inr None else Inl e
      | _ \<Rightarrow> Inl e)"

definition getGameInvites :: "db \<Rightarrow> string option \<Rightarrow> exn + item list option" where
  "getGameInvites db user =
     (case user of
        None \<Rightarrow> Inr (Some [])
      | Some u \<Rightarrow> invites_loop 10 (query db ''OpponentId'' u ''PENDING_'' 10) [])"

text \<open>
  The two values updateBoardAndTurn computes from the item before it calls the store:
  \<open>representation = "O" if item["OUser"] == current_player else "X"\<close> and
  \<open>next_player = player_two if current_player == player_one else player_one\<close>.
\<close>

definition representation :: "item \<Rightarrow> string \<Rightarrow> string" where
  "representation item current_player =
     (if getitem item ''OUser'' = Some current_player then ''O'' else ''X'')"

definition next_player :: "item \<Rightarrow> string \<Rightarrow> string option" where
  "next_player item current_player =
     (let player_one = getitem item ''HostId'';
          player_two = getitem item ''OpponentId''
      in if Some current_player = player_one then player_two else player_one)"

definition updateBoardAndTurn :: "db \<Rightarrow> item \<Rightarrow> string \<Rightarrow> string \<Rightarrow> exn + (bool \<times> db)" where
  "updateBoardAndTurn db item position current_player =
     (let gameId = getitem item ''GameId'';
          attributeUpdates = dict [(position, Some (representation item current_player)),
                                   (''Turn'', next_player item current_player)];
          expectations = dict [(''StatusDate'', BEGINS_WITH ''IN_PROGRESS_''),
                               (''Turn'', Value current_player),
                               (position, Exists_False)]
      in case update_item db gameId attributeUpdates expectations of
           Inl ConditionalCheckFailedException \<Rightarrow> Inr (False, db)
         | Inl e \<Rightarrow> Inl e
         | Inr db' \<Rightarrow> Inr (True, db'))"

definition squares :: "string list" where
  "squares = [''TopLeft'', ''TopMiddle'', ''TopRight'',
              ''MiddleLeft'', ''MiddleMiddle'', ''MiddleRight'',
              ''BottomLeft'', ''BottomMiddle'', ''BottomRight'']"

definition getBoardState :: "item \<Rightarrow> string list" where
  "getBoardState item = map (\<lambda>s. case getitem item s of None \<Rightarrow> '' '' | Some v \<Rightarrow> v) squares"

definition winConditions :: "(nat \<times> nat \<times> nat) list" where
  "winConditions = [(0,3,6), (0,1,2), (0,4,8), (1,4,7), (2,5,8), (2,4,6), (3,4,5), (6,7,8)]"

text \<open>\<open>board[i]\<close> raises IndexError outside the list (the indices here are not negative).\<close>

definition subscript :: "string list \<Rightarrow> nat \<Rightarrow> exn + string" where
  "subscript board i = (if i < length board then Inr (board ! i) else Inl IndexError)"

text \<open>
  The chained comparison \<open>board[w[0]] == board[w[1]] == board[w[2]] == marker\<close>: each
  operand is evaluated once, left to right, and the chain stops at the first comparison
  that is false.
\<close>

definition line_is :: "string list \<Rightarrow> nat \<times> nat \<times> nat \<Rightarrow> string \<Rightarrow> exn + bool" where
  "line_is board w marker =
     (case w of (w0, w1, w2) \<Rightarrow>
        (case subscript board w0 of Inl e \<Rightarrow> Inl e | Inr a \<Rightarrow>
        (case subscript board w1 of Inl e \<Rightarrow> Inl e | Inr b \<Rightarrow>
           if a \<noteq> b then Inr False
           else (case subscript board w2 of Inl e \<Rightarrow> Inl e | Inr c \<Rightarrow>
             if b \<noteq> c then Inr False else Inr (c = marker)))))"

text \<open>The \<open>for w in winConditions\<close> loop; \<open>Inr None\<close> when it ends without returning.\<close>

fun scan_lines ::
  "string list \<Rightarrow> string \<Rightarrow> string \<Rightarrow> (nat \<times> nat \<times> nat) list \<Rightarrow> exn + string option" where
  "scan_lines board yourMarker theirMarker [] = Inr None"
| "scan_lines board yourMarker theirMarker (w # ws) =
     (case line_is board w yourMarker of
        Inl e \<Rightarrow> Inl e
      | Inr True \<Rightarrow> Inr (Some ''Win'')
      | Inr False \<Rightarrow>
          (case line_is board w theirMarker of
             Inl e \<Rightarrow> Inl e
           | Inr True \<Rightarrow> Inr (Some ''Lose'')
           | Inr False \<Rightarrow> scan_lines board yourMarker theirMarker ws))"

text \<open>
  \<open>yourMarker = "O" if current_player == item["OUser"] else "X"\<close> and
  \<open>theirMarker = "X" if yourMarker == "O" else "O"\<close>.
\<close>

definition yourMarker :: "item \<Rightarrow> string \<Rightarrow> string" where
  "yourMarker item current_player =
     (if Some current_player = getitem item ''OUser'' then ''O'' else ''X'')"

definition theirMarker :: "item \<Rightarrow> string \<Rightarrow> string" where
  "theirMarker item current_player =
     (if yourMarker item current_player = ''O'' then ''X'' else ''O'')"

definition checkForGameResult :: "string list \<Rightarrow> item \<Rightarrow> string \<Rightarrow> exn + string option" where
  "checkForGameResult board item current_player =
     (case scan_lines board (yourMarker item current_player) (theirMarker item current_player)
             winConditions of
        Inl e \<Rightarrow> Inl e
      | Inr (Some r) \<Rightarrow> Inr (Some r)
      | Inr None \<Rightarrow> if '' '' \<notin> set board then Inr (Some ''Tie'') else Inr None)"

text \<open>
  changeGameToFinishedState changes the item in memory and saves it; the item is the
  one getGame loaded, so the data it was loaded with are its data on entry. The result
  is the returned value, the item as the caller holds it afterwards, and the store.
\<close>

definition changeGameToFinishedState ::
  "db \<Rightarrow> item \<Rightarrow> string \<Rightarrow> string \<Rightarrow> string \<Rightarrow> exn + (bool \<times> item \<times> db)" where
  "changeGameToFinishedState db item result current_user date =
     (if getitem item ''Result'' \<noteq> None then Inr (True, item, db)
      else
        let item1 = setitem item ''StatusDate'' (Some (''FINISHED_'' @ date));
            item2 = setitem item1 ''Turn'' (Some ''N/A'');
            item3 =
              (if result = ''Tie'' then setitem item2 ''Result'' (Some ''Tie'')
               else if result = ''Win'' then setitem item2 ''Result'' (Some current_user)
               else setitem item2 ''Result''
                      (if getitem item2 ''HostId'' = Some current_user
                       then getitem item2 ''OpponentId''
                       else getitem item2 ''HostId''))
        in case save db item item3 of
             Inl e \<Rightarrow> Inl e
           | Inr (b, db') \<Rightarrow> Inr (b, item3, db'))"

text \<open>
  \<open>games.sort(reverse=True)\<close> in getGamesWithStatus sorts the records the two queries
  returned, boto Items as they are: application.py wraps them into \<open>Game\<close> only after the
  call. An Item defines no ordering, so under Python 3 (application.py imports
  \<open>configparser\<close>) the first comparison of two of them raises TypeError; a list of fewer
  than two elements is sorted without any comparison. Python 2 would order the Items by
  their identity, which is no order of the records either.
\<close>

definition sort_reverse :: "item list \<Rightarrow> exn + item list" where
  "sort_reverse games = (if length games < 2 then Inr games else Inl TypeError)"

definition getGamesWithStatus :: "db \<Rightarrow> string option \<Rightarrow> string \<Rightarrow> exn + item list" where
  "getGamesWithStatus db user status =
     (case user of
        None \<Rightarrow> Inr []
      | Some u \<Rightarrow>
          let hostGames = query db ''HostId'' u status 10;
              oppGames = query db ''OpponentId'' u status 10
          in (case list_of_iterator hostGames of Inl e \<Rightarrow> Inl e | Inr hs \<Rightarrow>
             (case list_of_iterator oppGames of Inl e \<Rightarrow> Inl e | Inr os \<Rightarrow>
             (case sort_reverse (hs @ os) of Inl e \<Rightarrow> Inl e | Inr games \<Rightarrow>
                Inr (take 10 games)))))"

section \<open>application.py\<close>

text \<open>
  \<open>str.strip()\<close> removes leading and trailing whitespace. A character of a string is a
  code point below 256 here, and the code points below 256 for which \<open>str.isspace()\<close> holds
  are 9 to 13, 28 to 31, 32, 133 (U+0085) and 160 (U+00A0).
\<close>

definition isspace :: "char \<Rightarrow> bool" where
  "isspace c = ((of_char c :: nat) \<in> set [9, 10, 11, 12, 13, 28, 29, 30, 31, 32, 133, 160])"

definition strip :: "string \<Rightarrow> string" where
  "strip s = rev (dropWhile isspace (rev (dropWhile isspace s)))"

text \<open>A response is a redirect, with the message flashed before it, if any.\<close>

datatype response = Redirect "string option" string

text \<open>
  The route \<open>/play\<close>. \<open>username\<close> is \<open>session["username"]\<close>, \<open>uuid\<close> the value of
  \<open>str(uuid4())\<close> and \<open>now\<close> the value of \<open>str(datetime.now())\<close> in createNewGame.
\<close>

definition play ::
  "db \<Rightarrow> (string \<times> string) list \<Rightarrow> string \<Rightarrow> string \<Rightarrow> string \<Rightarrow> exn + (response \<times> db)" where
  "play db form username uuid now =
     (if form \<noteq> [] then
        (let creator = username;
             gameId = uuid
         in case map_of form ''invitee'' of
              None \<Rightarrow> Inl BadRequestKeyError
            | Some raw \<Rightarrow>
                let invitee = strip raw
                in if invitee = [] \<or> creator = invitee
                   then Inr (Redirect (Some ''Use valid a name (not empty or your name)'') ''/create'', db)
                   else (case createNewGame db gameId creator invitee now of
                           Inl e \<Rightarrow> Inl e
                         | Inr (True, db') \<Rightarrow> Inr (Redirect None (''/game='' @ gameId), db')
                         | Inr (False, db') \<Rightarrow>
                             Inr (Redirect (Some ''Something went wrong creating the game.'')
                                    ''/create'', db')))
      else Inr (Redirect (Some ''Something went wrong creating the game.'') ''/create'', db))"

text \<open>
  The other routes, as far as the store is concerned: each reads the game with getGame
  and hands the item to the controller. A request that ends in an exception, or finds
  no game, leaves the store as it was. \<open>date\<close> is the value of \<open>str(datetime.now())\<close> in
  the controller.
\<close>

definition accept :: "db \<Rightarrow> string \<Rightarrow> string \<Rightarrow> db" where
  "accept db gameId date =
     (case getGame db gameId of
        None \<Rightarrow> db
      | Some game \<Rightarrow>
          (case acceptGameInvite db game date of Inl e \<Rightarrow> db | Inr (b, db') \<Rightarrow> db'))"

definition reject :: "db \<Rightarrow> string \<Rightarrow> db" where
  "reject db gameId =
     (case getGame db gameId of
        None \<Rightarrow> db
      | Some game \<Rightarrow> snd (rejectGameInvite db game))"

definition selectSquare :: "db \<Rightarrow> string \<Rightarrow> string \<Rightarrow> string \<Rightarrow> db" where
  "selectSquare db gameId cell username =
     (case getGame db gameId of
        None \<Rightarrow> db
      | Some item \<Rightarrow>
          (case updateBoardAndTurn db item cell username of Inl e \<Rightarrow> db | Inr (b, db') \<Rightarrow> db'))"

text \<open>
  The route \<open>/game=<gameId>\<close> is the only caller of changeGameToFinishedState: it calls it
  when checkForGameResult on the board just read is not \<open>None\<close>.
\<close>

definition game :: "db \<Rightarrow> string \<Rightarrow> string \<Rightarrow> string \<Rightarrow> db" where
  "game db gameId username date =
     (case getGame db gameId of
        None \<Rightarrow> db
      | Some item \<Rightarrow>
          (let boardState = getBoardState item
           in case checkForGameResult boardState item username of
                Inl e \<Rightarrow> db
              | Inr None \<Rightarrow> db
              | Inr (Some result) \<Rightarrow>
                  (case changeGameToFinishedState db item result username date of
                     Inl e \<Rightarrow> db
                   | Inr (b, item', db') \<Rightarrow> db')))"

text \<open>
  The requests that write game records, and a run of the application over a list of
  them. Creating the table itself (the route \<open>/table\<close>) is left out.
\<close>

datatype request =
    Play "(string \<times> string) list" string string string
  | Accept string string
  | Reject string
  | SelectSquare string string string
  | Game string string string

fun handle :: "db \<Rightarrow> request \<Rightarrow> db" where
  "handle db (Play form username uuid now) =
     (case play db form username uuid now of Inl e \<Rightarrow> db | Inr (resp, db') \<Rightarrow> db')"
| "handle db (Accept gameId date) = accept db gameId date"
| "handle db (Reject gameId) = reject db gameId"
| "handle db (SelectSquare gameId cell username) = selectSquare db gameId cell username"
| "handle db (Game gameId username date) = game db gameId username date"

text \<open>
  The session's username is a non-empty string: \<open>index()\<close> stores the name of the login
  form only \<open>if formInput and formInput.strip()\<close>.
\<close>

fun logged_in :: "request \<Rightarrow> bool" where
  "logged_in (Play form username uuid now) = (username \<noteq> [])"
| "logged_in (Accept gameId date) = True"
| "logged_in (Reject gameId) = True"
| "logged_in (SelectSquare gameId cell username) = (username \<noteq> [])"
| "logged_in (Game gameId username date) = (username \<noteq> [])"

section \<open>Vocabulary of the properties\<close>

text \<open>A line of the board is fully one marker.\<close>

definition fully_marked :: "string list \<Rightarrow> string \<Rightarrow> nat \<times> nat \<times> nat \<Rightarrow> bool" where
  "fully_marked board marker w =
     (case w of (w0, w1, w2) \<Rightarrow>
        board ! w0 = marker \<and> board ! w1 = marker \<and> board ! w2 = marker)"

text \<open>
  The status prefix of a record is tested as the controller's expectations test it: the
  StatusDate attribute begins with \<open>PENDING_\<close>, \<open>IN_PROGRESS_\<close> or \<open>FINISHED_\<close>.
\<close>

definition status_is :: "string \<Rightarrow> item \<Rightarrow> bool" where
  "status_is p r = expectation_holds r (''StatusDate'', BEGINS_WITH p)"

text \<open>
  The records the application writes: one entry per attribute, stored under their GameId,
  with a status, a host and an opponent; no cell is set while the game is pending, and a
  finished game has its result.
\<close>

definition wf_record :: "string \<Rightarrow> item \<Rightarrow> bool" where
  "wf_record gid r =
     (distinct (map fst r)
      \<and> getitem r ''GameId'' = Some gid
      \<and> (status_is ''PENDING_'' r \<or> status_is ''IN_PROGRESS_'' r \<or> status_is ''FINISHED_'' r)
      \<and> (case getitem r ''HostId'' of None \<Rightarrow> False | Some h \<Rightarrow> h \<noteq> [])
      \<and> (case getitem r ''OpponentId'' of None \<Rightarrow> False | Some opp \<Rightarrow> opp \<noteq> [])
      \<and> (status_is ''PENDING_'' r \<longrightarrow> list_all (\<lambda>s. getitem r s = None) squares)
      \<and> (status_is ''FINISHED_'' r \<longrightarrow> getitem r ''Result'' \<noteq> None))"

definition wf_db :: "db \<Rightarrow> bool" where
  "wf_db db = (\<forall>gid r. getGame db gid = Some r \<longrightarrow> wf_record gid r)"

text \<open>A game between alice (host) and bob, for the examples.\<close>

definition example_game :: "string \<Rightarrow> string \<Rightarrow> item" where
  "example_game statusDate turn =
     [(''GameId'', ''g1''), (''HostId'', ''alice''), (''StatusDate'', statusDate),
      (''OUser'', ''alice''), (''Turn'', turn), (''OpponentId'', ''bob'')]"

text \<open>A second game, hosted by bob with carol as the opponent.\<close>

definition example_game2 :: "string \<Rightarrow> string \<Rightarrow> item" where
  "example_game2 statusDate turn =
     [(''GameId'', ''g2''), (''HostId'', ''bob''), (''StatusDate'', statusDate),
      (''OUser'', ''bob''), (''Turn'', turn), (''OpponentId'', ''carol'')]"

text \<open>
  A table of eleven invitations from alice to bob, stored in no order of their dates,
  and one game that bob hosts.
\<close>

definition example_invite :: "string \<Rightarrow> string \<Rightarrow> string \<times> item" where
  "example_invite gameId now =
     (gameId, [(''GameId'', gameId), (''HostId'', ''alice''), (''StatusDate'', ''PENDING_'' @ now),
               (''OUser'', ''alice''), (''Turn'', ''bob''), (''OpponentId'', ''bob'')])"

definition example_invites :: table where
  "example_invites =
     [example_invite ''g03'' ''2024-01-03'', example_invite ''g11'' ''2024-01-11'',
      example_invite ''g01'' ''2024-01-01'', example_invite ''g07'' ''2024-01-07'',
      (''g2'', example_game2 ''PENDING_2024-01-12'' ''carol''),
      example_invite ''g02'' ''2024-01-02'', example_invite ''g10'' ''2024-01-10'',
      example_invite ''g05'' ''2024-01-05'', example_invite ''g09'' ''2024-01-09'',
      example_invite ''g04'' ''2024-01-04'', example_invite ''g08'' ''2024-01-08'',
      example_invite ''g06'' ''2024-01-06'']"

section \<open>Python dictionary displays\<close>

lemma dict1: "dict [(a, x)] = [(a, x)]"
  by (simp add: dict_def)

lemma dict2: "dict [(a, x), (b, y)] = (if a = b then [(a, y)] else [(a, x), (b, y)])"
  by (simp add: dict_def)

lemma dict3:
  "dict [(a, x), (b, y), (c, z)] =
     (if a = b then (if a = c then [(a, z)] else [(a, y), (c, z)])
      else if a = c then [(a, z), (b, y)]
      else if b = c then [(a, x), (b, z)]
      else [(a, x), (b, y), (c, z)])"
  by (simp add: dict_def)

section \<open>Moves\<close>

text \<open>
  C1. For a record that is in the table with its StatusDate and Turn attributes,
  updateBoardAndTurn succeeds exactly when the three preconditions hold on the stored
  record: StatusDate begins with \<open>IN_PROGRESS_\<close>, Turn is the acting user, and the
  position is unset. On success the record gets the acting user's marker at the position
  (\<open>O\<close> if the acting user is OUser, else \<open>X\<close>) and Turn becomes the other participant (the
  opponent if the acting user is the host, else the host); nothing else changes. Otherwise
  the call returns \<open>False\<close> and the table is the same.
\<close>

theorem updateBoardAndTurn_conditional:
  assumes "getitem item ''GameId'' = Some gid"
      and "getitem item ''HostId'' = Some h"
      and "getitem item ''OpponentId'' = Some opp"
      and "map_of t gid = Some r"
      and "getitem r ''StatusDate'' = Some sd"
      and "getitem r ''Turn'' = Some tu"
  shows "updateBoardAndTurn (Some t) item position user =
     (if prefix ''IN_PROGRESS_'' sd \<and> tu = user \<and> getitem r position = None
      then Inr (True, Some (AList.update gid
              (AList.update ''Turn'' (if user = h then opp else h)
                (AList.update position
                   (if getitem item ''OUser'' = Some user then ''O'' else ''X'') r)) t))
      else Inr (False, Some t))"
  using assms
  by (auto simp: updateBoardAndTurn_def update_item_def dict2 dict3 Let_def stored_def
      put_all_def getitem_def representation_def next_player_def)

theorem updateBoardAndTurn_conditional_witness:
  "updateBoardAndTurn (Some [(''g1'', example_game ''IN_PROGRESS_2024'' ''bob'')])
       (example_game ''IN_PROGRESS_2024'' ''bob'') ''TopLeft'' ''bob''
     = Inr (True, Some [(''g1'', example_game ''IN_PROGRESS_2024'' ''alice'' @ [(''TopLeft'', ''X'')])])
   \<and> updateBoardAndTurn (Some [(''g1'', example_game ''IN_PROGRESS_2024'' ''bob'')])
       (example_game ''IN_PROGRESS_2024'' ''bob'') ''TopLeft'' ''alice''
     = Inr (False, Some [(''g1'', example_game ''IN_PROGRESS_2024'' ''bob'')])"
  using updateBoardAndTurn_conditional
      [of "example_game ''IN_PROGRESS_2024'' ''bob''" "''g1''" "''alice''" "''bob''"
          "[(''g1'', example_game ''IN_PROGRESS_2024'' ''bob'')]"
          "example_game ''IN_PROGRESS_2024'' ''bob''" "''IN_PROGRESS_2024''" "''bob''"
          "''TopLeft''" "''bob''"]
    updateBoardAndTurn_conditional
      [of "example_game ''IN_PROGRESS_2024'' ''bob''" "''g1''" "''alice''" "''bob''"
          "[(''g1'', example_game ''IN_PROGRESS_2024'' ''bob'')]"
          "example_game ''IN_PROGRESS_2024'' ''bob''" "''IN_PROGRESS_2024''" "''bob''"
          "''TopLeft''" "''alice''"]
  by (simp add: example_game_def getitem_def)

text \<open>
  C10. When the stored record's Turn is one of the two participants, a move by a user
  who is neither of them fails and leaves the table as it is, whatever the position. The
  controller has computed the marker \<open>X\<close> for such a user and the host as the next
  player, but the store's test of Turn against the acting user fails.
\<close>

theorem updateBoardAndTurn_non_participant:
  assumes "getitem item ''GameId'' = Some gid"
      and "getitem item ''HostId'' = Some h"
      and "getitem item ''OpponentId'' = Some opp"
      and "getitem item ''OUser'' = Some ou" and "ou = h \<or> ou = opp"
      and "map_of t gid = Some r"
      and "getitem r ''Turn'' = Some tu" and "tu = h \<or> tu = opp"
      and "user \<noteq> h" and "user \<noteq> opp"
  shows "representation item user = ''X'' \<and> next_player item user = Some h
         \<and> updateBoardAndTurn (Some t) item position user = Inr (False, Some t)"
  using assms
  by (auto simp: updateBoardAndTurn_def update_item_def dict2 dict3 Let_def stored_def
      put_all_def getitem_def representation_def next_player_def)

theorem updateBoardAndTurn_non_participant_witness:
  "representation (example_game ''IN_PROGRESS_2024'' ''bob'') ''carol'' = ''X''
   \<and> next_player (example_game ''IN_PROGRESS_2024'' ''bob'') ''carol'' = Some ''alice''
   \<and> updateBoardAndTurn (Some [(''g1'', example_game ''IN_PROGRESS_2024'' ''bob'')])
       (example_game ''IN_PROGRESS_2024'' ''bob'') ''TopLeft'' ''carol''
     = Inr (False, Some [(''g1'', example_game ''IN_PROGRESS_2024'' ''bob'')])"
  using updateBoardAndTurn_non_participant
      [of "example_game ''IN_PROGRESS_2024'' ''bob''" "''g1''" "''alice''" "''bob''" "''alice''"
          "[(''g1'', example_game ''IN_PROGRESS_2024'' ''bob'')]"
          "example_game ''IN_PROGRESS_2024'' ''bob''" "''bob''" "''carol''" "''TopLeft''"]
  by (simp add: example_game_def getitem_def)

section \<open>Invitations\<close>

text \<open>
  C4. With the table in place, acceptGameInvite rewrites StatusDate to
  \<open>IN_PROGRESS_<date>\<close> and returns \<open>True\<close> exactly when the record stored under the
  game's id has a StatusDate that begins with \<open>PENDING_\<close>; otherwise it returns \<open>False\<close>
  and the table is the same. rejectGameInvite deletes the record under the same
  precondition and otherwise returns \<open>False\<close> without a change. After a successful
  accept, a second accept and a reject of the same game both return \<open>False\<close> and change
  nothing.
\<close>

theorem acceptGameInvite_pending_only:
  assumes "getitem g ''GameId'' = Some gid"
  shows "acceptGameInvite (Some t) g date =
           (if status_is ''PENDING_'' (stored t gid)
            then Inr (True, Some (AList.update gid
                   (AList.update ''StatusDate'' (''IN_PROGRESS_'' @ date) (stored t gid)) t))
            else Inr (False, Some t))
       \<and> rejectGameInvite (Some t) g =
           (if status_is ''PENDING_'' (stored t gid)
            then (True, Some (AList.delete gid t))
            else (False, Some t))
       \<and> (\<forall>db'. acceptGameInvite (Some t) g date = Inr (True, db') \<longrightarrow>
             acceptGameInvite db' g date' = Inr (False, db')
             \<and> rejectGameInvite db' g = (False, db'))"
  using assms
  by (auto simp: acceptGameInvite_def rejectGameInvite_def update_item_def delete_item_def
      dict1 Let_def stored_def put_all_def getitem_def status_is_def update_conv'
      split: option.splits if_splits)

theorem acceptGameInvite_pending_only_witness:
  "acceptGameInvite (Some [(''g1'', example_game ''PENDING_2024'' ''bob'')])
      (example_game ''PENDING_2024'' ''bob'') ''2025''
     = Inr (True, Some [(''g1'', example_game ''IN_PROGRESS_2025'' ''bob'')])
   \<and> acceptGameInvite (Some [(''g1'', example_game ''IN_PROGRESS_2025'' ''bob'')])
      (example_game ''PENDING_2024'' ''bob'') ''2026''
     = Inr (False, Some [(''g1'', example_game ''IN_PROGRESS_2025'' ''bob'')])
   \<and> rejectGameInvite (Some [(''g1'', example_game ''IN_PROGRESS_2025'' ''bob'')])
      (example_game ''PENDING_2024'' ''bob'')
     = (False, Some [(''g1'', example_game ''IN_PROGRESS_2025'' ''bob'')])
   \<and> rejectGameInvite (Some [(''g1'', example_game ''PENDING_2024'' ''bob'')])
      (example_game ''PENDING_2024'' ''bob'')
     = (True, Some [])"
  using acceptGameInvite_pending_only
      [of "example_game ''PENDING_2024'' ''bob''" "''g1''"
          "[(''g1'', example_game ''PENDING_2024'' ''bob'')]" "''2025''" "''2026''"]
  by (simp add: example_game_def getitem_def status_is_def stored_def)

section \<open>Detecting the result\<close>

lemma line_is_fully_marked:
  assumes "length board = 9" and "w \<in> set winConditions"
  shows "line_is board w marker = Inr (fully_marked board marker w)"
  using assms
  by (auto simp: winConditions_def line_is_def subscript_def fully_marked_def)

lemma markers_differ: "yourMarker item user \<noteq> theirMarker item user"
  by (simp add: yourMarker_def theirMarker_def)

lemma scan_lines_find:
  assumes "length board = 9" and "set ws \<subseteq> set winConditions" and "y \<noteq> t"
  shows "scan_lines board y t ws =
     Inr (case List.find (\<lambda>w. fully_marked board y w \<or> fully_marked board t w) ws of
            None \<Rightarrow> None
          | Some w \<Rightarrow> Some (if fully_marked board y w then ''Win'' else ''Lose''))"
  using assms
proof (induction ws)
  case Nil
  then show ?case by simp
next
  case (Cons w ws)
  then have w: "line_is board w y = Inr (fully_marked board y w)"
               "line_is board w t = Inr (fully_marked board t w)"
    by (simp_all add: line_is_fully_marked)
  from Cons show ?case by (simp add: w)
qed

lemma checkForGameResult_find:
  assumes "length board = 9"
  shows "checkForGameResult board item user =
     Inr (case List.find (\<lambda>w. fully_marked board (yourMarker item user) w
                             \<or> fully_marked board (theirMarker item user) w) winConditions of
            None \<Rightarrow> if '' '' \<in> set board then None else Some ''Tie''
          | Some w \<Rightarrow> Some (if fully_marked board (yourMarker item user) w then ''Win'' else ''Lose''))"
  using assms markers_differ[of item user]
  by (simp add: checkForGameResult_def scan_lines_find split: option.splits)

text \<open>
  C2 (as amended). On a board of nine cells checkForGameResult returns the verdict of the
  first complete line in the order of \<open>winConditions\<close>: \<open>Win\<close> if that line is fully the
  acting user's marker, \<open>Lose\<close> if it is fully the opponent's marker. So it returns \<open>Win\<close>
  when some line is fully the acting user's marker and none is fully the opponent's,
  \<open>Lose\<close> when some line is fully the opponent's marker and none is fully the acting
  user's; when no line is complete it returns \<open>Tie\<close> if no blank cell remains and \<open>None\<close>
  otherwise.
\<close>

theorem checkForGameResult_first_complete_line:
  assumes "length board = 9"
  shows "checkForGameResult board item user =
     Inr (case List.find (\<lambda>w. fully_marked board (yourMarker item user) w
                             \<or> fully_marked board (theirMarker item user) w) winConditions of
            None \<Rightarrow> if '' '' \<in> set board then None else Some ''Tie''
          | Some w \<Rightarrow> Some (if fully_marked board (yourMarker item user) w then ''Win'' else ''Lose''))
    \<and> ((\<exists>w \<in> set winConditions. fully_marked board (yourMarker item user) w)
        \<and> (\<forall>w \<in> set winConditions. \<not> fully_marked board (theirMarker item user) w)
        \<longrightarrow> checkForGameResult board item user = Inr (Some ''Win''))
    \<and> ((\<exists>w \<in> set winConditions. fully_marked board (theirMarker item user) w)
        \<and> (\<forall>w \<in> set winConditions. \<not> fully_marked board (yourMarker item user) w)
        \<longrightarrow> checkForGameResult board item user = Inr (Some ''Lose''))
    \<and> ((\<forall>w \<in> set winConditions. \<not> fully_marked board (yourMarker item user) w
                                  \<and> \<not> fully_marked board (theirMarker item user) w)
        \<longrightarrow> checkForGameResult board item user =
              Inr (if '' '' \<in> set board then None else Some ''Tie''))"
proof -
  let ?P = "\<lambda>w. fully_marked board (yourMarker item user) w
                \<or> fully_marked board (theirMarker item user) w"
  note eq = checkForGameResult_find[OF assms, of item user]
  have win: "checkForGameResult board item user = Inr (Some ''Win'')"
    if a: "\<exists>w \<in> set winConditions. fully_marked board (yourMarker item user) w"
    and b: "\<forall>w \<in> set winConditions. \<not> fully_marked board (theirMarker item user) w"
  proof -
    from a obtain w where f: "List.find ?P winConditions = Some w"
      by (cases "List.find ?P winConditions") (auto simp: find_None_iff)
    then have "w \<in> set winConditions" "?P w"
      by (auto simp: find_Some_iff)
    with b f show ?thesis by (auto simp: eq)
  qed
  have lose: "checkForGameResult board item user = Inr (Some ''Lose'')"
    if a: "\<exists>w \<in> set winConditions. fully_marked board (theirMarker item user) w"
    and b: "\<forall>w \<in> set winConditions. \<not> fully_marked board (yourMarker item user) w"
  proof -
    from a obtain w where f: "List.find ?P winConditions = Some w"
      by (cases "List.find ?P winConditions") (auto simp: find_None_iff)
    then have "w \<in> set winConditions" "?P w"
      by (auto simp: find_Some_iff)
    with b f show ?thesis by (auto simp: eq)
  qed
  have none: "checkForGameResult board item user =
              Inr (if '' '' \<in> set board then None else Some ''Tie'')"
    if "\<forall>w \<in> set winConditions. \<not> fully_marked board (yourMarker item user) w
                                  \<and> \<not> fully_marked board (theirMarker item user) w"
  proof -
    from that have "List.find ?P winConditions = None"
      by (auto simp: find_None_iff)
    then show ?thesis by (simp add: eq)
  qed
  from eq win lose none show ?thesis by blast
qed

theorem checkForGameResult_first_complete_line_witness:
  "checkForGameResult [''X'', ''X'', ''X'', '' '', ''O'', '' '', '' '', '' '', ''O'']
      (example_game ''IN_PROGRESS_2024'' ''alice'') ''bob'' = Inr (Some ''Win'')
   \<and> checkForGameResult [''X'', ''X'', ''X'', '' '', ''O'', '' '', '' '', '' '', ''O'']
      (example_game ''IN_PROGRESS_2024'' ''alice'') ''alice'' = Inr (Some ''Lose'')
   \<and> checkForGameResult [''X'', ''O'', ''X'', ''X'', ''X'', ''O'', ''O'', ''X'', ''O'']
      (example_game ''IN_PROGRESS_2024'' ''alice'') ''alice'' = Inr (Some ''Tie'')
   \<and> checkForGameResult [''X'', ''O'', ''X'', ''X'', '' '', ''O'', ''O'', ''X'', ''O'']
      (example_game ''IN_PROGRESS_2024'' ''alice'') ''alice'' = Inr None"
  using checkForGameResult_first_complete_line
      [of "[''X'', ''X'', ''X'', '' '', ''O'', '' '', '' '', '' '', ''O'']"
          "example_game ''IN_PROGRESS_2024'' ''alice''" "''bob''"]
    checkForGameResult_first_complete_line
      [of "[''X'', ''X'', ''X'', '' '', ''O'', '' '', '' '', '' '', ''O'']"
          "example_game ''IN_PROGRESS_2024'' ''alice''" "''alice''"]
    checkForGameResult_first_complete_line
      [of "[''X'', ''O'', ''X'', ''X'', ''X'', ''O'', ''O'', ''X'', ''O'']"
          "example_game ''IN_PROGRESS_2024'' ''alice''" "''alice''"]
    checkForGameResult_first_complete_line
      [of "[''X'', ''O'', ''X'', ''X'', '' '', ''O'', ''O'', ''X'', ''O'']"
          "example_game ''IN_PROGRESS_2024'' ''alice''" "''alice''"]
  by (simp add: example_game_def getitem_def yourMarker_def theirMarker_def
      fully_marked_def winConditions_def)

text \<open>
  C2 as stated fails on a board where both markers fill a line: the line (3, 4, 5) is fully
  the acting user's marker, and the result is \<open>Lose\<close>, because the opponent's line
  (0, 1, 2) comes earlier in \<open>winConditions\<close>.
\<close>

theorem checkForGameResult_both_lines_counterexample:
  "(3, 4, 5) \<in> set winConditions
   \<and> fully_marked [''X'', ''X'', ''X'', ''O'', ''O'', ''O'', '' '', '' '', '' '']
        (yourMarker (example_game ''IN_PROGRESS_2024'' ''alice'') ''alice'') (3, 4, 5)
   \<and> checkForGameResult [''X'', ''X'', ''X'', ''O'', ''O'', ''O'', '' '', '' '', '' '']
        (example_game ''IN_PROGRESS_2024'' ''alice'') ''alice'' = Inr (Some ''Lose'')"
  by (simp add: checkForGameResult_def winConditions_def line_is_def subscript_def
      yourMarker_def theirMarker_def getitem_def example_game_def fully_marked_def)

section \<open>Saving an item\<close>



lemma prepare_full_id: "\<forall>(k, v) \<in> set d. v \<noteq> [] \<Longrightarrow> prepare_full d = d"
  by (auto simp: prepare_full_def intro!: filter_True)


lemma build_expects_holds:
  "list_all (expectation_holds cur) (build_expects orig_data data) \<longleftrightarrow>
     (\<forall>k \<in> fst ` set data \<union> fst ` set orig_data. map_of cur k = map_of orig_data k)"
proof -
  have key: "expectation_holds cur
               (k, case map_of orig_data k of None \<Rightarrow> Exists_False | Some v \<Rightarrow> Value v)
             \<longleftrightarrow> map_of cur k = map_of orig_data k" for k
    by (auto split: option.splits)
  show ?thesis
    by (simp add: build_expects_def list_all_iff key)
qed

lemma needs_save_added:
  "(k, v) \<in> set data \<Longrightarrow> v \<noteq> [] \<Longrightarrow> map_of orig_data k = None \<Longrightarrow> needs_save orig_data data"
  by (auto simp: needs_save_def list_ex_iff split: option.splits intro!: bexI[of _ "(k, v)"])



section \<open>Finishing a game\<close>






section \<open>Creating a game\<close>

lemma update_absent: "map_of al k = None \<Longrightarrow> AList.update k v al = al @ [(k, v)]"
  by (induction al) (auto split: if_splits)

lemma save_new:
  assumes "map_of t gid = None"
      and "map_of data ''GameId'' = Some gid"
      and "\<forall>(k, v) \<in> set data. v \<noteq> []"
  shows "save (Some t) [] data = Inr (True, Some (t @ [(gid, data)]))"
proof -
  have "(''GameId'', gid) \<in> set data"
    using assms(2) by (rule map_of_SomeD)
  moreover from this assms(3) have "gid \<noteq> []" by auto
  ultimately have "needs_save [] data"
    by (auto intro: needs_save_added)
  moreover have "prepare_full data = data"
    using assms(3) by (rule prepare_full_id)
  moreover have "list_all (expectation_holds (stored t gid)) (build_expects [] data)"
    by (simp add: build_expects_holds stored_def assms(1))
  ultimately show ?thesis
    by (simp add: save_def put_item_def assms(1,2) update_absent)
qed

lemma createNewGame_fresh:
  assumes "map_of t gameId = None" "gameId \<noteq> []" "creator \<noteq> []" "invitee \<noteq> []"
  shows "createNewGame (Some t) gameId creator invitee now =
     Inr (True, Some (t @ [(gameId,
       [(''GameId'', gameId), (''HostId'', creator), (''StatusDate'', ''PENDING_'' @ now),
        (''OUser'', creator), (''Turn'', invitee), (''OpponentId'', invitee)])]))"
proof -
  have d: "dict [(''GameId'', gameId), (''HostId'', creator), (''StatusDate'', ''PENDING_'' @ now),
        (''OUser'', creator), (''Turn'', invitee), (''OpponentId'', invitee)]
     = [(''GameId'', gameId), (''HostId'', creator), (''StatusDate'', ''PENDING_'' @ now),
        (''OUser'', creator), (''Turn'', invitee), (''OpponentId'', invitee)]"
    by (simp add: dict_def)
  show ?thesis
    unfolding createNewGame_def Let_def d
    by (rule save_new) (use assms in simp_all)
qed

text \<open>
  C6. The route \<open>/play\<close> with an invitee in the form: when the invitee, stripped, is empty
  or is the creator, the request is answered with the message "Use valid a name (not
  empty or your name)" and the store is not touched. Otherwise, for a creator with a
  non-empty name and a game id not yet in the table, exactly one record is added: GameId,
  HostId and OUser the creator, StatusDate \<open>PENDING_<now>\<close>, Turn and OpponentId the invitee;
  it has no cell and no Result.
\<close>

theorem play_creates_pending_game:
  assumes "map_of form ''invitee'' = Some raw"
  shows "(strip raw = [] \<or> username = strip raw \<longrightarrow>
            play db form username uuid now =
              Inr (Redirect (Some ''Use valid a name (not empty or your name)'') ''/create'', db))
       \<and> (strip raw \<noteq> [] \<and> username \<noteq> strip raw \<and> username \<noteq> [] \<and> uuid \<noteq> []
            \<and> db = Some t \<and> map_of t uuid = None \<longrightarrow>
            (let record = [(''GameId'', uuid), (''HostId'', username),
                           (''StatusDate'', ''PENDING_'' @ now), (''OUser'', username),
                           (''Turn'', strip raw), (''OpponentId'', strip raw)]
             in play db form username uuid now =
                  Inr (Redirect None (''/game='' @ uuid), Some (t @ [(uuid, record)]))
                \<and> list_all (\<lambda>s. getitem record s = None) squares
                \<and> getitem record ''Result'' = None))"
proof -
  from assms have ne: "form \<noteq> []" by auto
  show ?thesis
  proof (intro conjI impI)
    assume "strip raw = [] \<or> username = strip raw"
    then show "play db form username uuid now =
              Inr (Redirect (Some ''Use valid a name (not empty or your name)'') ''/create'', db)"
      using assms ne by (auto simp: play_def Let_def)
  next
    assume a: "strip raw \<noteq> [] \<and> username \<noteq> strip raw \<and> username \<noteq> [] \<and> uuid \<noteq> []
            \<and> db = Some t \<and> map_of t uuid = None"
    then have "createNewGame db uuid username (strip raw) now =
       Inr (True, Some (t @ [(uuid,
        [(''GameId'', uuid), (''HostId'', username), (''StatusDate'', ''PENDING_'' @ now),
         (''OUser'', username), (''Turn'', strip raw), (''OpponentId'', strip raw)])]))"
      by (simp add: createNewGame_fresh)
    with a assms ne show "let record = [(''GameId'', uuid), (''HostId'', username),
                           (''StatusDate'', ''PENDING_'' @ now), (''OUser'', username),
                           (''Turn'', strip raw), (''OpponentId'', strip raw)]
             in play db form username uuid now =
                  Inr (Redirect None (''/game='' @ uuid), Some (t @ [(uuid, record)]))
                \<and> list_all (\<lambda>s. getitem record s = None) squares
                \<and> getitem record ''Result'' = None"
      by (simp add: play_def Let_def squares_def getitem_def)
  qed
qed

theorem play_creates_pending_game_witness:
  "play (Some []) [(''invitee'', '' bob '')] ''alice'' ''g1'' ''2024''
     = Inr (Redirect None ''/game=g1'', Some [(''g1'', example_game ''PENDING_2024'' ''bob'')])
   \<and> play (Some []) [(''invitee'', ''alice'')] ''alice'' ''g1'' ''2024''
     = Inr (Redirect (Some ''Use valid a name (not empty or your name)'') ''/create'', Some [])
   \<and> play (Some []) [(''invitee'', ''   '')] ''alice'' ''g1'' ''2024''
     = Inr (Redirect (Some ''Use valid a name (not empty or your name)'') ''/create'', Some [])"
  using play_creates_pending_game
      [of "[(''invitee'', '' bob '')]" "'' bob ''" "''alice''" "Some []" "''g1''" "''2024''" "[]"]
    play_creates_pending_game
      [of "[(''invitee'', ''alice'')]" "''alice''" "''alice''" "Some []" "''g1''" "''2024''" "[]"]
    play_creates_pending_game
      [of "[(''invitee'', ''   '')]" "''   ''" "''alice''" "Some []" "''g1''" "''2024''" "[]"]
  by (simp add: strip_def isspace_def example_game_def Let_def)

section \<open>Listing games\<close>

lemma invites_loop_records:
  "invites_loop n (map Inr xs) invites = Inr (Some (invites @ take n xs))"
proof (induction n arbitrary: xs invites)
  case 0
  then show ?case by simp
next
  case (Suc n)
  then show ?case by (cases xs) simp_all
qed

lemma list_of_iterator_records: "list_of_iterator (map Inr xs) = Inr xs"
  by (induction xs) simp_all

lemma sorted_rev_take_drop:
  assumes "sorted (rev (map k xs))"
  shows "\<forall>a \<in> set (take n xs). \<forall>b \<in> set (drop n xs). k b \<le> k a"
proof -
  have "rev (map k xs) = rev (map k (drop n xs)) @ rev (map k (take n xs))"
    by (metis append_take_drop_id map_append rev_append)
  with assms have "sorted (rev (map k (drop n xs)) @ rev (map k (take n xs)))"
    by simp
  then show ?thesis
    by (auto simp: sorted_append)
qed

lemma top_first:
  fixes k :: "'a \<Rightarrow> string" and ms :: "'a list" and n :: nat
  defines "xs \<equiv> rev (sort_key k ms)"
  shows "mset (take n xs @ drop n xs) = mset ms"
    and "length (take n xs) = min n (length ms)"
    and "sorted (rev (map k (take n xs)))"
    and "\<forall>r \<in> set (drop n xs). \<forall>r' \<in> set (take n xs). k r \<le> k r'"
    and "length ms \<le> n \<Longrightarrow> drop n xs = []"
proof -
  have s: "sorted (rev (map k xs))"
    by (simp add: xs_def rev_map)
  show "mset (take n xs @ drop n xs) = mset ms"
    by (simp add: xs_def)
  show "length (take n xs) = min n (length ms)"
    by (simp add: xs_def min.commute)
  have "sorted_wrt (\<lambda>x y. y \<le> x) (map k xs)"
    using s by (simp only: sorted_wrt_rev)
  then have "sorted_wrt (\<lambda>x y. y \<le> x) (take n (map k xs))"
    by (rule sorted_wrt_take)
  then show "sorted (rev (map k (take n xs)))"
    by (simp only: sorted_wrt_rev take_map)
  show "\<forall>r \<in> set (drop n xs). \<forall>r' \<in> set (take n xs). k r \<le> k r'"
    using sorted_rev_take_drop[OF s, of n] by blast
  show "drop n xs = []" if "length ms \<le> n"
    using that by (simp add: xs_def)
qed

lemma query_records:
  "u \<noteq> [] \<Longrightarrow> query (Some t) a u p n =
     map Inr (take n (rev (sort_key statusDate_key (filter (matches a u p) (map snd t)))))"
  by (simp add: query_def)

lemma query_no_table:
  "u \<noteq> [] \<Longrightarrow> query None a u p n = [Inl (JSONResponseError ResourceNotFound)]"
  by (simp add: query_def)

lemma getGameInvites_records:
  "u \<noteq> [] \<Longrightarrow> getGameInvites (Some t) (Some u) =
     Inr (Some (take 10 (rev (sort_key statusDate_key
                  (filter (matches ''OpponentId'' u ''PENDING_'') (map snd t))))))"
  by (simp add: getGameInvites_def query_records invites_loop_records)

text \<open>
  C8. For a user with a non-empty name and a table in place, getGameInvites returns the
  records of the table whose OpponentId is the user and whose StatusDate begins with
  \<open>PENDING_\<close>, the latest StatusDate first, cut after ten: the records returned and the
  records left out are together exactly the matching records, each as often as it is
  stored, and no record left out is later than one returned. For an absent user
  (\<open>None\<close>) and for the empty name it returns the empty list, whatever the store.
\<close>

theorem getGameInvites_latest_pending:
  assumes "u \<noteq> []"
  shows "(\<exists>invites rest.
            getGameInvites (Some t) (Some u) = Inr (Some invites)
          \<and> mset (invites @ rest) =
              mset (filter (\<lambda>r. getitem r ''OpponentId'' = Some u \<and> status_is ''PENDING_'' r)
                     (map snd t))
          \<and> length invites =
              min 10 (length (filter (\<lambda>r. getitem r ''OpponentId'' = Some u
                                            \<and> status_is ''PENDING_'' r) (map snd t)))
          \<and> sorted (rev (map statusDate_key invites))
          \<and> (\<forall>r \<in> set rest. \<forall>r' \<in> set invites. statusDate_key r \<le> statusDate_key r'))
       \<and> getGameInvites db None = Inr (Some [])
       \<and> getGameInvites db (Some []) = Inr (Some [])"
proof -
  let ?P = "\<lambda>r. getitem r ''OpponentId'' = Some u \<and> status_is ''PENDING_'' r"
  let ?ms = "filter ?P (map snd t)"
  let ?xs = "rev (sort_key statusDate_key ?ms)"
  have m: "matches ''OpponentId'' u ''PENDING_'' = ?P"
    by (simp add: matches_def status_is_def fun_eq_iff)
  have "getGameInvites (Some t) (Some u) = Inr (Some (take 10 ?xs))"
    using assms by (simp add: getGameInvites_records m)
  moreover have "mset (take 10 ?xs @ drop 10 ?xs) = mset ?ms"
    by (rule top_first(1))
  moreover have "length (take 10 ?xs) = min 10 (length ?ms)"
    by (rule top_first(2))
  moreover have "sorted (rev (map statusDate_key (take 10 ?xs)))"
    by (rule top_first(3))
  moreover have "\<forall>r \<in> set (drop 10 ?xs). \<forall>r' \<in> set (take 10 ?xs).
                   statusDate_key r \<le> statusDate_key r'"
    by (rule top_first(4))
  moreover have "getGameInvites db None = Inr (Some [])"
    by (simp add: getGameInvites_def)
  moreover have "getGameInvites db (Some []) = Inr (Some [])"
    by (simp add: getGameInvites_def query_def eval_nat_numeral)
  ultimately show ?thesis
    by blast
qed

theorem getGameInvites_latest_pending_witness:
  "getGameInvites (Some example_invites) (Some ''bob'') =
     Inr (Some (map snd
       [example_invite ''g11'' ''2024-01-11'', example_invite ''g10'' ''2024-01-10'',
        example_invite ''g09'' ''2024-01-09'', example_invite ''g08'' ''2024-01-08'',
        example_invite ''g07'' ''2024-01-07'', example_invite ''g06'' ''2024-01-06'',
        example_invite ''g05'' ''2024-01-05'', example_invite ''g04'' ''2024-01-04'',
        example_invite ''g03'' ''2024-01-03'', example_invite ''g02'' ''2024-01-02'']))
   \<and> sorted (rev (map statusDate_key (map snd
       [example_invite ''g11'' ''2024-01-11'', example_invite ''g10'' ''2024-01-10'',
        example_invite ''g09'' ''2024-01-09'', example_invite ''g08'' ''2024-01-08'',
        example_invite ''g07'' ''2024-01-07'', example_invite ''g06'' ''2024-01-06'',
        example_invite ''g05'' ''2024-01-05'', example_invite ''g04'' ''2024-01-04'',
        example_invite ''g03'' ''2024-01-03'', example_invite ''g02'' ''2024-01-02''])))
   \<and> length (filter (\<lambda>r. getitem r ''OpponentId'' = Some ''bob'' \<and> status_is ''PENDING_'' r)
                (map snd example_invites)) = 11
   \<and> getGameInvites None None = Inr (Some [])
   \<and> getGameInvites None (Some []) = Inr (Some [])"
proof -
  let ?L = "map snd
       [example_invite ''g11'' ''2024-01-11'', example_invite ''g10'' ''2024-01-10'',
        example_invite ''g09'' ''2024-01-09'', example_invite ''g08'' ''2024-01-08'',
        example_invite ''g07'' ''2024-01-07'', example_invite ''g06'' ''2024-01-06'',
        example_invite ''g05'' ''2024-01-05'', example_invite ''g04'' ''2024-01-04'',
        example_invite ''g03'' ''2024-01-03'', example_invite ''g02'' ''2024-01-02'']"
  have ne: "''bob'' \<noteq> []" by simp
  from getGameInvites_latest_pending[OF ne, of example_invites None]
  obtain invites where a: "getGameInvites (Some example_invites) (Some ''bob'') = Inr (Some invites)"
    and b: "sorted (rev (map statusDate_key invites))"
    and c: "getGameInvites None None = Inr (Some [])"
           "getGameInvites None (Some []) = Inr (Some [])"
    by blast
  have ev: "getGameInvites (Some example_invites) (Some ''bob'') = Inr (Some ?L)"
    by code_simp
  with a have "invites = ?L" by simp
  with b have "sorted (rev (map statusDate_key ?L))" by simp
  moreover have "length (filter (\<lambda>r. getitem r ''OpponentId'' = Some ''bob''
                                      \<and> status_is ''PENDING_'' r)
                (map snd example_invites)) = 11"
    by code_simp
  ultimately show ?thesis using ev c by blast
qed

text \<open>
  C9 (as amended). For a user with a non-empty name, getGameInvites returns \<open>None\<close> when
  the Games table does not exist, and a list, never \<open>None\<close>, when it exists: the missing
  table is told apart from a table without invites. For an absent user getGameInvites
  and getGamesWithStatus return the empty list without asking the store, table or no
  table.
\<close>

theorem listing_without_table:
  assumes "u \<noteq> []"
  shows "getGameInvites None (Some u) = Inr None
       \<and> (\<forall>t. \<exists>invites. getGameInvites (Some t) (Some u) = Inr (Some invites))
       \<and> (\<forall>db. getGameInvites db None = Inr (Some []))
       \<and> (\<forall>db. getGamesWithStatus db None status = Inr [])"
proof -
  have "getGameInvites None (Some u) = Inr None"
    using assms by (simp add: getGameInvites_def query_no_table eval_nat_numeral)
  moreover have "\<forall>t. \<exists>invites. getGameInvites (Some t) (Some u) = Inr (Some invites)"
    using assms by (simp add: getGameInvites_records)
  moreover have "\<forall>db. getGameInvites db None = Inr (Some [])"
    by (simp add: getGameInvites_def)
  moreover have "\<forall>db. getGamesWithStatus db None status = Inr []"
    by (simp add: getGamesWithStatus_def)
  ultimately show ?thesis by blast
qed

theorem listing_without_table_witness:
  "getGameInvites None (Some ''bob'') = Inr None
   \<and> getGameInvites (Some []) (Some ''bob'') = Inr (Some [])
   \<and> getGameInvites None None = Inr (Some [])
   \<and> getGamesWithStatus None None ''FINISHED'' = Inr []"
proof -
  have ne: "''bob'' \<noteq> []" by simp
  have e: "getGameInvites (Some []) (Some ''bob'') = Inr (Some [])"
    by (simp add: getGameInvites_def query_def eval_nat_numeral)
  from listing_without_table[OF ne, of "''FINISHED''"] e show ?thesis
    by blast
qed

text \<open>
  C9 as stated fails for an absent user: without the table both listings return the
  empty list, exactly as they do on an empty table.
\<close>

theorem listing_without_table_counterexample:
  "getGameInvites None None = Inr (Some [])
   \<and> getGameInvites (Some []) None = Inr (Some [])
   \<and> getGamesWithStatus None None ''IN_PROGRESS'' = Inr []
   \<and> getGamesWithStatus (Some []) None ''IN_PROGRESS'' = Inr []"
  by (simp add: getGameInvites_def getGamesWithStatus_def)

section \<open>Sorting the games of a status\<close>

text \<open>
  C7. bob has two games in progress, one as opponent and one as host. Each query returns
  one of them, and \<open>games.sort(reverse=True)\<close> on the two Items raises TypeError:
  getGamesWithStatus returns no list, sorted or not.
\<close>

theorem getGamesWithStatus_two_games:
  "getGamesWithStatus
     (Some [(''g1'', example_game ''IN_PROGRESS_2024-01-01 10:00:00.000001'' ''bob''),
            (''g2'', example_game2 ''IN_PROGRESS_2024-01-02 10:00:00.000001'' ''carol'')])
     (Some ''bob'') ''IN_PROGRESS'' = Inl TypeError"
  by (simp add: getGamesWithStatus_def query_def matches_def getitem_def example_game_def
      example_game2_def list_of_iterator_records sort_reverse_def Let_def)

section \<open>The status of a game over a run of requests\<close>

lemma prefix_first: "prefix (c # p) s \<Longrightarrow> prefix (d # q) s \<Longrightarrow> c = d"
  by (cases s) auto

lemma status_exclusive:
  "status_is ''PENDING_'' r \<Longrightarrow> \<not> status_is ''IN_PROGRESS_'' r"
  "status_is ''PENDING_'' r \<Longrightarrow> \<not> status_is ''FINISHED_'' r"
  "status_is ''IN_PROGRESS_'' r \<Longrightarrow> \<not> status_is ''FINISHED_'' r"
  by (auto simp: status_is_def split: option.splits dest: prefix_first)

lemma status_is_update [simp]:
  "status_is p (AList.update ''StatusDate'' s r) = prefix p s"
  by (simp add: status_is_def update_conv')

lemma status_is_cong:
  "getitem r' ''StatusDate'' = getitem r ''StatusDate'' \<Longrightarrow> status_is p r' = status_is p r"
  by (simp add: status_is_def getitem_def)

lemma wf_dbD: "wf_db (Some t) \<Longrightarrow> map_of t g = Some r \<Longrightarrow> wf_record g r"
  by (simp add: wf_db_def getGame_def)

lemma wf_db_update:
  "wf_db (Some t) \<Longrightarrow> wf_record g r' \<Longrightarrow> wf_db (Some (AList.update g r' t))"
  by (simp add: wf_db_def getGame_def update_conv')

lemma wf_db_delete: "wf_db (Some t) \<Longrightarrow> wf_db (Some (AList.delete g t))"
  by (simp add: wf_db_def getGame_def delete_conv')

lemma accept_cases:
  assumes "wf_db (Some t)"
  shows "accept (Some t) g date = Some t
       \<or> (\<exists>r. map_of t g = Some r \<and> status_is ''PENDING_'' r
              \<and> accept (Some t) g date =
                  Some (AList.update g (AList.update ''StatusDate'' (''IN_PROGRESS_'' @ date) r) t))"
proof (cases "map_of t g")
  case None
  then show ?thesis by (simp add: accept_def getGame_def)
next
  case (Some r)
  with assms have "getitem r ''GameId'' = Some g"
    by (auto dest: wf_dbD simp: wf_record_def)
  with Some show ?thesis
    by (auto simp: accept_def getGame_def acceptGameInvite_def update_item_def dict1 Let_def
        stored_def put_all_def status_is_def)
qed

lemma reject_cases:
  assumes "wf_db (Some t)"
  shows "reject (Some t) g = Some t
       \<or> (\<exists>r. map_of t g = Some r \<and> status_is ''PENDING_'' r
              \<and> reject (Some t) g = Some (AList.delete g t))"
proof (cases "map_of t g")
  case None
  then show ?thesis by (simp add: reject_def getGame_def)
next
  case (Some r)
  with assms have "getitem r ''GameId'' = Some g"
    by (auto dest: wf_dbD simp: wf_record_def)
  with Some show ?thesis
    by (auto simp: reject_def getGame_def rejectGameInvite_def delete_item_def dict1 Let_def
        stored_def status_is_def)
qed

lemma selectSquare_cases:
  assumes "wf_db (Some t)"
  shows "selectSquare (Some t) g cell user = Some t
       \<or> (\<exists>r r'. map_of t g = Some r \<and> status_is ''IN_PROGRESS_'' r
              \<and> selectSquare (Some t) g cell user = Some (AList.update g r' t)
              \<and> distinct (map fst r')
              \<and> getitem r' ''GameId'' = getitem r ''GameId''
              \<and> getitem r' ''StatusDate'' = getitem r ''StatusDate''
              \<and> getitem r' ''HostId'' = getitem r ''HostId''
              \<and> getitem r' ''OpponentId'' = getitem r ''OpponentId'')"
proof (cases "map_of t g")
  case None
  then show ?thesis by (simp add: selectSquare_def getGame_def)
next
  case (Some r)
  with assms have wf: "wf_record g r" by (rule wf_dbD)
  then obtain sd h opp where a: "getitem r ''GameId'' = Some g" "getitem r ''StatusDate'' = Some sd"
    "getitem r ''HostId'' = Some h" "getitem r ''OpponentId'' = Some opp" "distinct (map fst r)"
    by (auto simp: wf_record_def status_is_def getitem_def split: option.splits)
  have gg: "getGame (Some t) g = Some r"
    using Some by (simp add: getGame_def)
  let ?m = "representation r user"
  let ?np = "if user = h then opp else h"
  have np: "next_player r user = Some ?np"
    using a by (auto simp: next_player_def)
  consider (sd) "cell = ''StatusDate''" | (turn) "cell = ''Turn''"
    | (other) "cell \<noteq> ''StatusDate''" "cell \<noteq> ''Turn''"
    by blast
  then show ?thesis
  proof cases
    case sd
    then have "updateBoardAndTurn (Some t) r cell user = Inr (False, Some t)"
      using a Some
      by (simp add: updateBoardAndTurn_def update_item_def dict2 dict3 np stored_def getitem_def)
    then show ?thesis
      by (simp add: selectSquare_def gg)
  next
    case turn
    show ?thesis
    proof (cases "status_is ''IN_PROGRESS_'' r \<and> getitem r ''Turn'' = None")
      case True
      then have "updateBoardAndTurn (Some t) r cell user =
          Inr (True, Some (AList.update g (AList.update ''Turn'' ?np r) t))"
        using a Some turn
        by (simp add: updateBoardAndTurn_def update_item_def dict2 dict3 np stored_def
            getitem_def status_is_def put_all_def)
      then have "selectSquare (Some t) g cell user =
          Some (AList.update g (AList.update ''Turn'' ?np r) t)"
        by (simp add: selectSquare_def gg)
      with True a Some show ?thesis
        by (auto simp: getitem_def update_conv' distinct_update)
    next
      case False
      then have "updateBoardAndTurn (Some t) r cell user = Inr (False, Some t)"
        using a Some turn
        by (auto simp: updateBoardAndTurn_def update_item_def dict2 dict3 np stored_def
            getitem_def status_is_def)
      then show ?thesis
        by (simp add: selectSquare_def gg)
    qed
  next
    case other
    show ?thesis
    proof (cases "status_is ''IN_PROGRESS_'' r \<and> getitem r ''Turn'' = Some user
                  \<and> getitem r cell = None")
      case True
      then have "updateBoardAndTurn (Some t) r cell user =
          Inr (True, Some (AList.update g (AList.update ''Turn'' ?np (AList.update cell ?m r)) t))"
        using a Some other
        by (simp add: updateBoardAndTurn_def update_item_def dict2 dict3 np stored_def
            getitem_def status_is_def put_all_def)
      then have "selectSquare (Some t) g cell user =
          Some (AList.update g (AList.update ''Turn'' ?np (AList.update cell ?m r)) t)"
        by (simp add: selectSquare_def gg)
      moreover from True a have "cell \<noteq> ''GameId''" "cell \<noteq> ''HostId''" "cell \<noteq> ''OpponentId''"
        by auto
      ultimately show ?thesis
        using True a Some other
        by (auto simp: getitem_def update_conv' distinct_update)
    next
      case False
      then have "updateBoardAndTurn (Some t) r cell user = Inr (False, Some t)"
        using a Some other
        by (auto simp: updateBoardAndTurn_def update_item_def dict2 dict3 np stored_def
            getitem_def status_is_def)
      then show ?thesis
        by (simp add: selectSquare_def gg)
    qed
  qed
qed

lemma map_of_prepare_full:
  "distinct (map fst d) \<Longrightarrow>
     map_of (prepare_full d) a =
       (case map_of d a of None \<Rightarrow> None | Some v \<Rightarrow> if v = [] then None else Some v)"
proof (induction d)
  case Nil
  then show ?case by (simp add: prepare_full_def)
next
  case (Cons x d)
  obtain k v where x: "x = (k, v)" by (cases x)
  from Cons.prems x have "map_of d k = None"
    by (simp add: map_of_eq_None_iff)
  with Cons x show ?case
    by (auto simp: prepare_full_def split: option.splits)
qed

lemma distinct_prepare_full: "distinct (map fst d) \<Longrightarrow> distinct (map fst (prepare_full d))"
  by (simp add: prepare_full_def distinct_map_filter)

lemma save_cases:
  "(\<exists>e. save (Some t) orig_data data = Inl e)
   \<or> (\<exists>b. save (Some t) orig_data data = Inr (b, Some t))
   \<or> (\<exists>k. map_of (prepare_full data) ''GameId'' = Some k
         \<and> save (Some t) orig_data data =
             Inr (True, Some (AList.update k (prepare_full data) t)))"
  by (cases "needs_save orig_data data"; cases "map_of (prepare_full data) ''GameId''";
      cases "list_all (expectation_holds (stored t (the (map_of (prepare_full data) ''GameId''))))
               (build_expects orig_data data)")
     (auto simp: save_def put_item_def)

lemma getBoardState_blank:
  "list_all (\<lambda>s. getitem r s = None) squares \<Longrightarrow>
     getBoardState r = ['' '', '' '', '' '', '' '', '' '', '' '', '' '', '' '', '' '']"
  by (simp add: getBoardState_def squares_def)

lemma checkForGameResult_blank:
  "checkForGameResult ['' '', '' '', '' '', '' '', '' '', '' '', '' '', '' '', '' ''] item user
     = Inr None"
  by (simp add: checkForGameResult_def winConditions_def line_is_def subscript_def
      yourMarker_def theirMarker_def)

lemma length_getBoardState: "length (getBoardState r) = 9"
  by (simp add: getBoardState_def squares_def)

lemma finished_record:
  assumes wf: "wf_record g r" and w: "w \<noteq> []" and s: "prefix ''FINISHED_'' s"
    and k: "map_of (prepare_full (AList.update ''Result'' w (AList.update ''Turn'' ''N/A''
              (AList.update ''StatusDate'' s r)))) ''GameId'' = Some k"
  shows "k = g
       \<and> wf_record g (prepare_full (AList.update ''Result'' w (AList.update ''Turn'' ''N/A''
              (AList.update ''StatusDate'' s r))))
       \<and> status_is ''FINISHED_'' (prepare_full (AList.update ''Result'' w
              (AList.update ''Turn'' ''N/A'' (AList.update ''StatusDate'' s r))))"
proof -
  let ?d = "AList.update ''Result'' w (AList.update ''Turn'' ''N/A''
              (AList.update ''StatusDate'' s r))"
  from wf have d: "distinct (map fst ?d)"
    by (simp add: wf_record_def distinct_update)
  note m = map_of_prepare_full[OF d]
  from s have sne: "s \<noteq> []" by auto
  from wf obtain h opp where a: "map_of r ''GameId'' = Some g" "map_of r ''HostId'' = Some h"
    "h \<noteq> []" "map_of r ''OpponentId'' = Some opp" "opp \<noteq> []"
    by (auto simp: wf_record_def getitem_def split: option.splits)
  from k a have kg: "k = g"
    by (simp add: m update_conv' split: if_splits)
  have fin: "status_is ''FINISHED_'' (prepare_full ?d)"
    using s sne by (simp add: status_is_def m update_conv')
  then have "\<not> status_is ''PENDING_'' (prepare_full ?d)"
    using status_exclusive(2) by blast
  with fin k a w kg have "wf_record g (prepare_full ?d)"
    by (simp add: wf_record_def getitem_def m update_conv' distinct_prepare_full[OF d])
  with kg fin show ?thesis by simp
qed

lemma game_cases:
  assumes wf: "wf_db (Some t)" and user: "user \<noteq> []"
  shows "game (Some t) g user date = Some t
       \<or> (\<exists>r r'. map_of t g = Some r \<and> status_is ''IN_PROGRESS_'' r
              \<and> game (Some t) g user date = Some (AList.update g r' t)
              \<and> wf_record g r' \<and> status_is ''FINISHED_'' r')"
proof (cases "map_of t g")
  case None
  then show ?thesis by (simp add: game_def getGame_def)
next
  case (Some r)
  with wf have wfr: "wf_record g r" by (rule wf_dbD)
  have gg: "getGame (Some t) g = Some r"
    using Some by (simp add: getGame_def)
  obtain x where cf: "checkForGameResult (getBoardState r) r user = Inr x"
    using checkForGameResult_find[OF length_getBoardState] by blast
  show ?thesis
  proof (cases x)
    case None
    with cf show ?thesis by (simp add: game_def gg)
  next
    case (Some result)
    have np: "\<not> status_is ''PENDING_'' r"
    proof
      assume "status_is ''PENDING_'' r"
      with wfr have "list_all (\<lambda>s. getitem r s = None) squares"
        by (simp add: wf_record_def)
      then have "checkForGameResult (getBoardState r) r user = Inr None"
        by (simp add: getBoardState_blank checkForGameResult_blank)
      with cf Some show False by simp
    qed
    show ?thesis
    proof (cases "getitem r ''Result'' = None")
      case False
      then have "changeGameToFinishedState (Some t) r result user date = Inr (True, r, Some t)"
        by (simp add: changeGameToFinishedState_def)
      with cf Some show ?thesis by (simp add: game_def gg)
    next
      case True
      with wfr np have ip: "status_is ''IN_PROGRESS_'' r"
        by (auto simp: wf_record_def)
      from wfr obtain h opp where a: "getitem r ''HostId'' = Some h" "h \<noteq> []"
        "getitem r ''OpponentId'' = Some opp" "opp \<noteq> []"
        by (auto simp: wf_record_def split: option.splits)
      define w where "w = (if result = ''Tie'' then ''Tie''
                    else if result = ''Win'' then user
                    else if h = user then opp else h)"
      define d where "d = AList.update ''Result'' w (AList.update ''Turn'' ''N/A''
                      (AList.update ''StatusDate'' (''FINISHED_'' @ date) r))"
      have wne: "w \<noteq> []"
        using a user by (simp add: w_def)
      have "getitem (AList.update ''Turn'' ''N/A''
                      (AList.update ''StatusDate'' (''FINISHED_'' @ date) r)) ''HostId'' = Some h"
           "getitem (AList.update ''Turn'' ''N/A''
                      (AList.update ''StatusDate'' (''FINISHED_'' @ date) r)) ''OpponentId'' = Some opp"
        using a by (simp_all add: getitem_def update_conv')
      then have cg: "changeGameToFinishedState (Some t) r result user date =
           (case save (Some t) r d of Inl e \<Rightarrow> Inl e | Inr (b, db') \<Rightarrow> Inr (b, d, db'))"
        using True
        by (auto simp: changeGameToFinishedState_def setitem_def Let_def d_def w_def
            split: sum.splits prod.splits)
      from save_cases[of t r d] show ?thesis
      proof (elim disjE exE conjE)
        fix e assume "save (Some t) r d = Inl e"
        with cg cf Some show ?thesis by (simp add: game_def gg)
      next
        fix b assume "save (Some t) r d = Inr (b, Some t)"
        with cg cf Some show ?thesis by (simp add: game_def gg)
      next
        fix k assume k: "map_of (prepare_full d) ''GameId'' = Some k"
          and sv: "save (Some t) r d = Inr (True, Some (AList.update k (prepare_full d) t))"
        have "prefix ''FINISHED_'' (''FINISHED_'' @ date)" by simp
        from finished_record[OF wfr wne this k[unfolded d_def]]
        have "k = g" "wf_record g (prepare_full d)" "status_is ''FINISHED_'' (prepare_full d)"
          by (simp_all add: d_def)
        moreover from sv cg cf Some
        have "game (Some t) g user date = Some (AList.update k (prepare_full d) t)"
          by (simp add: game_def gg)
        ultimately show ?thesis
          using \<open>map_of t g = Some r\<close> ip by blast
      qed
    qed
  qed
qed

lemma play_cases:
  assumes wf: "wf_db (Some t)" and user: "username \<noteq> []"
  shows "handle (Some t) (Play form username uuid now) = Some t
       \<or> (\<exists>r'. map_of t uuid = None
              \<and> handle (Some t) (Play form username uuid now) = Some (t @ [(uuid, r')])
              \<and> wf_record uuid r' \<and> status_is ''PENDING_'' r')"
proof -
  have "handle (Some t) (Play form username uuid now) = Some t
        \<or> (\<exists>invitee. invitee \<noteq> []
              \<and> handle (Some t) (Play form username uuid now) =
                  (case createNewGame (Some t) uuid username invitee now of
                     Inl e \<Rightarrow> Some t | Inr (b, db') \<Rightarrow> db'))"
    by (auto simp: play_def Let_def split: option.splits sum.splits bool.splits)
  then show ?thesis
  proof (elim disjE exE conjE)
    assume "handle (Some t) (Play form username uuid now) = Some t"
    then show ?thesis by simp
  next
    fix invitee assume inv: "invitee \<noteq> []"
      and h: "handle (Some t) (Play form username uuid now) =
                  (case createNewGame (Some t) uuid username invitee now of
                     Inl e \<Rightarrow> Some t | Inr (b, db') \<Rightarrow> db')"
    let ?d = "[(''GameId'', uuid), (''HostId'', username), (''StatusDate'', ''PENDING_'' @ now),
        (''OUser'', username), (''Turn'', invitee), (''OpponentId'', invitee)]"
    have d: "dict ?d = ?d"
      by (simp add: dict_def)
    have cn: "createNewGame (Some t) uuid username invitee now = save (Some t) [] ?d"
      unfolding createNewGame_def Let_def d by (rule refl)
    show ?thesis
    proof (cases "uuid \<noteq> [] \<and> map_of t uuid = None")
      case True
      then have "createNewGame (Some t) uuid username invitee now =
          Inr (True, Some (t @ [(uuid, ?d)]))"
        using user inv by (simp add: createNewGame_fresh)
      with h have "handle (Some t) (Play form username uuid now) = Some (t @ [(uuid, ?d)])"
        by simp
      moreover have "wf_record uuid ?d" "status_is ''PENDING_'' ?d"
        using user inv by (simp_all add: wf_record_def status_is_def getitem_def squares_def)
      ultimately show ?thesis using True by blast
    next
      case False
      have "save (Some t) [] ?d = Inl ValidationException
          \<or> save (Some t) [] ?d = Inl ConditionalCheckFailedException"
      proof (cases "uuid = []")
        case True
        then show ?thesis
          using user by (simp add: save_def needs_save_def put_item_def prepare_full_def)
      next
        case ne: False
        with False obtain r where r: "map_of t uuid = Some r" by auto
        with wf have "map_of r ''GameId'' = Some uuid"
          by (auto dest: wf_dbD simp: wf_record_def getitem_def)
        with r ne show ?thesis
          by (simp add: save_def needs_save_def put_item_def prepare_full_def
              build_expects_holds stored_def)
      qed
      with h cn show ?thesis by auto
    qed
  qed
qed

lemma handle_no_table: "handle None req = None"
  by (cases req)
     (auto simp: play_def createNewGame_def save_def put_item_def accept_def reject_def
        selectSquare_def game_def getGame_def Let_def
        split: option.splits sum.splits bool.splits)

lemma handle_cases:
  assumes wf: "wf_db (Some t)" and li: "logged_in req"
  shows "handle (Some t) req = Some t
       \<or> (\<exists>g r r'. map_of t g = Some r \<and> handle (Some t) req = Some (AList.update g r' t)
              \<and> wf_record g r'
              \<and> (status_is ''PENDING_'' r \<and> status_is ''IN_PROGRESS_'' r'
                  \<or> status_is ''IN_PROGRESS_'' r
                     \<and> (status_is ''IN_PROGRESS_'' r' \<or> status_is ''FINISHED_'' r')))
       \<or> (\<exists>g r. map_of t g = Some r \<and> status_is ''PENDING_'' r
              \<and> handle (Some t) req = Some (AList.delete g t))
       \<or> (\<exists>g r'. map_of t g = None \<and> handle (Some t) req = Some (t @ [(g, r')])
              \<and> wf_record g r' \<and> status_is ''PENDING_'' r')"
proof (cases req)
  case (Play form username uuid now)
  with li have "username \<noteq> []" by simp
  from play_cases[OF wf this, of form uuid now] Play show ?thesis by metis
next
  case (Accept g date)
  from accept_cases[OF wf, of g date] show ?thesis
  proof (elim disjE exE conjE)
    assume "accept (Some t) g date = Some t"
    with Accept show ?thesis by simp
  next
    fix r assume r: "map_of t g = Some r" and p: "status_is ''PENDING_'' r"
      and a: "accept (Some t) g date =
                Some (AList.update g (AList.update ''StatusDate'' (''IN_PROGRESS_'' @ date) r) t)"
    let ?r' = "AList.update ''StatusDate'' (''IN_PROGRESS_'' @ date) r"
    from wf r have wfr: "wf_record g r" by (rule wf_dbD)
    have ip: "status_is ''IN_PROGRESS_'' ?r'" by simp
    then have "\<not> status_is ''PENDING_'' ?r'" "\<not> status_is ''FINISHED_'' ?r'"
      using status_exclusive by blast+
    with wfr ip have "wf_record g ?r'"
      by (simp add: wf_record_def getitem_def update_conv' distinct_update)
    moreover have "handle (Some t) req = Some (AList.update g ?r' t)"
      using Accept a by simp
    ultimately show ?thesis using r p ip by blast
  qed
next
  case (Reject g)
  have "handle (Some t) req = reject (Some t) g"
    using Reject by simp
  with reject_cases[OF wf, of g] show ?thesis by metis
next
  case (SelectSquare g cell username)
  from selectSquare_cases[OF wf, of g cell username] show ?thesis
  proof (elim disjE exE conjE)
    assume "selectSquare (Some t) g cell username = Some t"
    with SelectSquare show ?thesis by simp
  next
    fix r r' assume r: "map_of t g = Some r" and ip: "status_is ''IN_PROGRESS_'' r"
      and s: "selectSquare (Some t) g cell username = Some (AList.update g r' t)"
      and d: "distinct (map fst r')"
      and e: "getitem r' ''GameId'' = getitem r ''GameId''"
             "getitem r' ''StatusDate'' = getitem r ''StatusDate''"
             "getitem r' ''HostId'' = getitem r ''HostId''"
             "getitem r' ''OpponentId'' = getitem r ''OpponentId''"
    from wf r have wfr: "wf_record g r" by (rule wf_dbD)
    from e(2) have st: "status_is p r' = status_is p r" for p
      by (rule status_is_cong)
    from ip have "\<not> status_is ''PENDING_'' r" "\<not> status_is ''FINISHED_'' r"
      using status_exclusive by blast+
    with wfr d e ip have "wf_record g r'"
      by (simp add: wf_record_def st)
    moreover have "handle (Some t) req = Some (AList.update g r' t)"
      using SelectSquare s by simp
    moreover have "status_is ''IN_PROGRESS_'' r'"
      using ip st by simp
    ultimately show ?thesis using r ip by blast
  qed
next
  case (Game g username date)
  with li have "username \<noteq> []" by simp
  moreover have "handle (Some t) req = game (Some t) g username date"
    using Game by simp
  ultimately show ?thesis
    using game_cases[OF wf, of username g date] by metis
qed

lemma map_of_snoc:
  "map_of t g = None \<Longrightarrow> map_of (t @ [(g, r')]) k = (if k = g then Some r' else map_of t k)"
  by (auto simp: map_add_def split: option.splits)

lemma handle_step:
  assumes wf: "wf_db db" and li: "logged_in req"
  shows "wf_db (handle db req)"
    and "getGame db gid = Some r \<Longrightarrow> status_is ''PENDING_'' r \<Longrightarrow>
           getGame (handle db req) gid = None
           \<or> (\<exists>r'. getGame (handle db req) gid = Some r'
                  \<and> (status_is ''PENDING_'' r' \<or> status_is ''IN_PROGRESS_'' r'))"
    and "getGame db gid = Some r \<Longrightarrow> status_is ''IN_PROGRESS_'' r \<Longrightarrow>
           \<exists>r'. getGame (handle db req) gid = Some r'
                \<and> (status_is ''IN_PROGRESS_'' r' \<or> status_is ''FINISHED_'' r')"
    and "getGame db gid = Some r \<Longrightarrow> status_is ''FINISHED_'' r \<Longrightarrow>
           getGame (handle db req) gid = Some r"
proof -
  have "wf_db (handle db req)
     \<and> (getGame db gid = Some r \<longrightarrow>
          (status_is ''PENDING_'' r \<longrightarrow>
             getGame (handle db req) gid = None
             \<or> (\<exists>r'. getGame (handle db req) gid = Some r'
                    \<and> (status_is ''PENDING_'' r' \<or> status_is ''IN_PROGRESS_'' r')))
        \<and> (status_is ''IN_PROGRESS_'' r \<longrightarrow>
             (\<exists>r'. getGame (handle db req) gid = Some r'
                  \<and> (status_is ''IN_PROGRESS_'' r' \<or> status_is ''FINISHED_'' r')))
        \<and> (status_is ''FINISHED_'' r \<longrightarrow> getGame (handle db req) gid = Some r))"
  proof (cases db)
    case None
    then show ?thesis by (simp add: handle_no_table wf_db_def getGame_def)
  next
    case (Some t)
    with wf have wft: "wf_db (Some t)" by simp
    note ex = status_exclusive
    from handle_cases[OF wft li]
    consider (same) "handle (Some t) req = Some t"
      | (upd) g r0 r' where "map_of t g = Some r0"
          "handle (Some t) req = Some (AList.update g r' t)" "wf_record g r'"
          "status_is ''PENDING_'' r0 \<and> status_is ''IN_PROGRESS_'' r'
             \<or> status_is ''IN_PROGRESS_'' r0
                \<and> (status_is ''IN_PROGRESS_'' r' \<or> status_is ''FINISHED_'' r')"
      | (del) g r0 where "map_of t g = Some r0" "status_is ''PENDING_'' r0"
          "handle (Some t) req = Some (AList.delete g t)"
      | (new) g r' where "map_of t g = None" "handle (Some t) req = Some (t @ [(g, r')])"
          "wf_record g r'" "status_is ''PENDING_'' r'"
      by blast
    then show ?thesis
    proof cases
      case same
      with Some wft show ?thesis by auto
    next
      case (upd g r0 r')
      have "wf_db (handle db req)"
        using Some upd(2,3) wft by (simp add: wf_db_update)
      moreover have "getGame (handle db req) gid = (if gid = g then Some r' else getGame db gid)"
        using Some upd(2) by (simp add: getGame_def update_conv')
      ultimately show ?thesis
        using Some upd(1,4) ex by (auto simp: getGame_def)
    next
      case (del g r0)
      have "wf_db (handle db req)"
        using Some del(3) wft by (simp add: wf_db_delete)
      moreover have "getGame (handle db req) gid = (if gid = g then None else getGame db gid)"
        using Some del(3) by (simp add: getGame_def delete_conv')
      ultimately show ?thesis
        using Some del(1,2) ex by (auto simp: getGame_def)
    next
      case (new g r')
      have gg: "getGame (handle db req) k = (if k = g then Some r' else getGame db k)" for k
        using Some new(2) map_of_snoc[OF new(1), of r' k]
        by (simp add: getGame_def del: map_of_append)
      have "wf_db (handle db req)"
        using wf new(3) unfolding wf_db_def gg by simp
      then show ?thesis
        using Some new(1) gg[of gid] by (auto simp: getGame_def)
    qed
  qed
  then show "wf_db (handle db req)"
    and "getGame db gid = Some r \<Longrightarrow> status_is ''PENDING_'' r \<Longrightarrow>
           getGame (handle db req) gid = None
           \<or> (\<exists>r'. getGame (handle db req) gid = Some r'
                  \<and> (status_is ''PENDING_'' r' \<or> status_is ''IN_PROGRESS_'' r'))"
    and "getGame db gid = Some r \<Longrightarrow> status_is ''IN_PROGRESS_'' r \<Longrightarrow>
           \<exists>r'. getGame (handle db req) gid = Some r'
                \<and> (status_is ''IN_PROGRESS_'' r' \<or> status_is ''FINISHED_'' r')"
    and "getGame db gid = Some r \<Longrightarrow> status_is ''FINISHED_'' r \<Longrightarrow>
           getGame (handle db req) gid = Some r"
    by blast+
qed

lemma wf_db_run: "wf_db db \<Longrightarrow> list_all logged_in reqs \<Longrightarrow> wf_db (foldl handle db reqs)"
  by (induction reqs arbitrary: db) (simp_all add: handle_step(1))

text \<open>
  C5 (as amended). Take any run of requests to the application: creating a game, accepting
  or rejecting an invitation, selecting a square, and viewing a game, which is where
  finalize is called, and only when checkForGameResult on the board just read is not
  \<open>None\<close>. The users have non-empty names and the store starts with well-formed records
  (an empty table, for one). Then the records stay well-formed, each with one of the three
  status prefixes, and whatever the next request is: a pending game stays pending,
  becomes in progress or is deleted, and is not finished; a game in progress stays in
  progress or becomes finished, and is not pending again; a finished game keeps its record
  unchanged, cells, Turn and Result included.
\<close>

theorem status_only_advances:
  assumes "wf_db db" and "list_all logged_in (reqs @ [req])"
  shows "wf_db (foldl handle db reqs)
       \<and> (\<forall>gid r. getGame (foldl handle db reqs) gid = Some r \<longrightarrow>
            (status_is ''PENDING_'' r \<or> status_is ''IN_PROGRESS_'' r \<or> status_is ''FINISHED_'' r)
          \<and> (status_is ''PENDING_'' r \<longrightarrow>
                getGame (handle (foldl handle db reqs) req) gid = None
                \<or> (\<exists>r'. getGame (handle (foldl handle db reqs) req) gid = Some r'
                       \<and> (status_is ''PENDING_'' r' \<or> status_is ''IN_PROGRESS_'' r')
                       \<and> \<not> status_is ''FINISHED_'' r'))
          \<and> (status_is ''IN_PROGRESS_'' r \<longrightarrow>
                (\<exists>r'. getGame (handle (foldl handle db reqs) req) gid = Some r'
                     \<and> (status_is ''IN_PROGRESS_'' r' \<or> status_is ''FINISHED_'' r')
                     \<and> \<not> status_is ''PENDING_'' r'))
          \<and> (status_is ''FINISHED_'' r \<longrightarrow>
                getGame (handle (foldl handle db reqs) req) gid = Some r))"
proof -
  let ?db = "foldl handle db reqs"
  from assms have wf: "wf_db ?db" and li: "logged_in req"
    by (simp_all add: wf_db_run)
  have one: "status_is ''PENDING_'' r \<or> status_is ''IN_PROGRESS_'' r \<or> status_is ''FINISHED_'' r"
    if "getGame ?db gid = Some r" for gid r
    using wf that by (auto simp: wf_db_def wf_record_def)
  have p: "getGame (handle ?db req) gid = None
           \<or> (\<exists>r'. getGame (handle ?db req) gid = Some r'
                  \<and> (status_is ''PENDING_'' r' \<or> status_is ''IN_PROGRESS_'' r')
                  \<and> \<not> status_is ''FINISHED_'' r')"
    if "getGame ?db gid = Some r" "status_is ''PENDING_'' r" for gid r
    using handle_step(2)[OF wf li that] status_exclusive(2,3) by blast
  have i: "\<exists>r'. getGame (handle ?db req) gid = Some r'
                \<and> (status_is ''IN_PROGRESS_'' r' \<or> status_is ''FINISHED_'' r')
                \<and> \<not> status_is ''PENDING_'' r'"
    if "getGame ?db gid = Some r" "status_is ''IN_PROGRESS_'' r" for gid r
    using handle_step(3)[OF wf li that] status_exclusive(1,2) by blast
  from wf one p i handle_step(4)[OF wf li] show ?thesis
    by blast
qed

theorem status_only_advances_witness:
  "wf_db (foldl handle (Some [])
            [Play [(''invitee'', ''bob'')] ''alice'' ''g1'' ''2024'', Accept ''g1'' ''2025''])
   \<and> foldl handle (Some [])
        [Play [(''invitee'', ''bob'')] ''alice'' ''g1'' ''2024'', Accept ''g1'' ''2025'']
       = Some [(''g1'', example_game ''IN_PROGRESS_2025'' ''bob'')]
   \<and> handle (Some [(''g1'', example_game ''IN_PROGRESS_2025'' ''bob'')])
        (SelectSquare ''g1'' ''TopLeft'' ''bob'')
       = Some [(''g1'', example_game ''IN_PROGRESS_2025'' ''alice'' @ [(''TopLeft'', ''X'')])]"
proof -
  have "wf_db (Some [])"
    by (simp add: wf_db_def getGame_def)
  moreover have "list_all logged_in
     ([Play [(''invitee'', ''bob'')] ''alice'' ''g1'' ''2024'', Accept ''g1'' ''2025'']
      @ [SelectSquare ''g1'' ''TopLeft'' ''bob''])"
    by simp
  ultimately have "wf_db (foldl handle (Some [])
            [Play [(''invitee'', ''bob'')] ''alice'' ''g1'' ''2024'', Accept ''g1'' ''2025''])"
    using status_only_advances by blast
  moreover have "foldl handle (Some [])
        [Play [(''invitee'', ''bob'')] ''alice'' ''g1'' ''2024'', Accept ''g1'' ''2025'']
       = Some [(''g1'', example_game ''IN_PROGRESS_2025'' ''bob'')]"
    by (simp add: play_def strip_def isspace_def createNewGame_def dict_def save_def
        needs_save_def put_item_def prepare_full_def build_expects_def stored_def
        accept_def getGame_def acceptGameInvite_def update_item_def put_all_def getitem_def
        example_game_def Let_def)
  moreover have "handle (Some [(''g1'', example_game ''IN_PROGRESS_2025'' ''bob'')])
        (SelectSquare ''g1'' ''TopLeft'' ''bob'')
       = Some [(''g1'', example_game ''IN_PROGRESS_2025'' ''alice'' @ [(''TopLeft'', ''X'')])]"
    by (simp add: selectSquare_def getGame_def updateBoardAndTurn_def update_item_def dict_def
        put_all_def stored_def getitem_def representation_def next_player_def example_game_def
        Let_def)
  ultimately show ?thesis by blast
qed

text \<open>
  C5 as stated fails for finalize taken as an operation of its own:
  changeGameToFinishedState has no test of the status, and on a pending game it writes
  \<open>FINISHED_<date>\<close> directly.
\<close>

theorem finalize_pending_counterexample:
  "status_is ''PENDING_'' (example_game ''PENDING_2024'' ''bob'')
   \<and> changeGameToFinishedState (Some [(''g1'', example_game ''PENDING_2024'' ''bob'')])
        (example_game ''PENDING_2024'' ''bob'') ''Tie'' ''alice'' ''2025''
       = Inr (True, example_game ''FINISHED_2025'' ''N/A'' @ [(''Result'', ''Tie'')],
              Some [(''g1'', example_game ''FINISHED_2025'' ''N/A'' @ [(''Result'', ''Tie'')])])
   \<and> status_is ''FINISHED_'' (example_game ''FINISHED_2025'' ''N/A'' @ [(''Result'', ''Tie'')])"
  by (simp add: changeGameToFinishedState_def setitem_def save_def needs_save_def put_item_def
      prepare_full_def build_expects_def stored_def getitem_def status_is_def example_game_def
      Let_def)

end
